theory Spec2Isabelle
  imports Main "HOL-Library.Signed_Division" "HOL-Library.Multiset"
begin

section \<open>ct\_hammer: the driver of the CT log stress test\<close>

text \<open>
  The development follows \<^verbatim>\<open>trillian/integration/ct_hammer/main.go\<close>: the
  function \<^verbatim>\<open>notAfterForLog\<close>, the function \<^verbatim>\<open>newLimiter\<close> and the
  body of \<^verbatim>\<open>main\<close> (flag post-processing, the bias table, the per-log loop that
  builds a \<^verbatim>\<open>HammerConfig\<close> and launches a worker, and the aggregation of the
  workers' results).
\<close>

subsection \<open>Instants: the part of Go's \<^verbatim>\<open>time\<close> package the driver uses\<close>

text \<open>
  Go's \<^verbatim>\<open>int64\<close> arithmetic wraps around. Integers are modelled as \<open>int\<close> and the
  wrap-around is written out with \<open>int64\<close> wherever the source computes on values that can
  leave the 64-bit range. Go's \<^verbatim>\<open>/\<close> and \<^verbatim>\<open>%\<close> truncate towards zero: they are
  \<open>sdiv\<close> and \<open>smod\<close>.
\<close>

definition int64 :: "int \<Rightarrow> int" where
  "int64 k = (k + 9223372036854775808) mod 18446744073709551616 - 9223372036854775808"

text \<open>
  A \<^verbatim>\<open>time.Time\<close> is the pair of \<^verbatim>\<open>t.sec()\<close>, the seconds since January 1 of
  year 1, 00:00:00 UTC, and \<^verbatim>\<open>t.nsec()\<close>, the nanoseconds within that second. The
  location and the monotonic clock reading do not influence any operation used here.
  The seconds of every \<^verbatim>\<open>Time\<close> the driver builds (the clock, validated timestamps
  of the years 1 to 9999, results of \<^verbatim>\<open>time.Unix(0, n)\<close>) stay far inside the 64-bit
  range, so \<open>sec\<close> is an unbounded \<open>int\<close>.
\<close>

record Time =
  sec :: int
  nsec :: int

type_synonym Duration = int

definition Second :: Duration where
  "Second = 1000000000"

definition Hour :: Duration where
  "Hour = 3600000000000"

definition unixToInternal :: int where
  "unixToInternal = (1969 * 365 + 1969 div 4 - 1969 div 100 + 1969 div 400) * 86400"

definition zeroTime :: Time where
  "zeroTime = \<lparr>sec = 0, nsec = 0\<rparr>"

definition IsZero :: "Time \<Rightarrow> bool" where
  "IsZero t \<longleftrightarrow> sec t = 0 \<and> nsec t = 0"

definition unixTime :: "int \<Rightarrow> int \<Rightarrow> Time" where
  "unixTime s n = \<lparr>sec = s + unixToInternal, nsec = n\<rparr>"

definition Unix :: "int \<Rightarrow> int \<Rightarrow> Time" where
  "Unix s n =
     (if n < 0 \<or> n \<ge> 1000000000 then
        (let q = n sdiv 1000000000;
             s1 = s + q;
             n1 = n - q * 1000000000
         in if n1 < 0 then unixTime (s1 - 1) (n1 + 1000000000) else unixTime s1 n1)
      else unixTime s n)"

definition UnixNano :: "Time \<Rightarrow> int" where
  "UnixNano t = int64 ((sec t - unixToInternal) * 1000000000 + nsec t)"

definition Add :: "Time \<Rightarrow> Duration \<Rightarrow> Time" where
  "Add t d =
     (let dsec = d sdiv 1000000000;
          n = nsec t + d smod 1000000000
      in if n \<ge> 1000000000 then \<lparr>sec = sec t + (dsec + 1), nsec = n - 1000000000\<rparr>
         else if n < 0 then \<lparr>sec = sec t + (dsec - 1), nsec = n + 1000000000\<rparr>
         else \<lparr>sec = sec t + dsec, nsec = n\<rparr>)"

text \<open>
  Specification-level reading of a \<^verbatim>\<open>Time\<close>: the exact number of nanoseconds since
  the Unix epoch, without any 64-bit limit. It is not a function of the source; the
  theorems use it to say which instant a result denotes.
\<close>

definition instant :: "Time \<Rightarrow> int" where
  "instant t = (sec t - unixToInternal) * 1000000000 + nsec t"

definition normalised :: "Time \<Rightarrow> bool" where
  "normalised t \<longleftrightarrow> 0 \<le> nsec t \<and> nsec t < 1000000000"

subsection \<open>Protobuf timestamps (\<^verbatim>\<open>ptypes.Timestamp\<close>)\<close>

record Timestamp =
  Seconds :: int
  Nanos :: int

datatype tserror = BeforeYear1 | AfterYear10000 | NanosOutOfRange

definition minValidSeconds :: int where
  "minValidSeconds = - 62135596800"

definition maxValidSeconds :: int where
  "maxValidSeconds = 253402300800"

text \<open>
  \<^verbatim>\<open>validateTimestamp\<close> for a timestamp that is not nil: \<^verbatim>\<open>notAfterForLog\<close>
  converts a bound only after it has found it different from nil.
\<close>

definition validateTimestamp :: "Timestamp \<Rightarrow> tserror option" where
  "validateTimestamp ts =
     (if Seconds ts < minValidSeconds then Some BeforeYear1
      else if Seconds ts \<ge> maxValidSeconds then Some AfterYear10000
      else if Nanos ts < 0 \<or> Nanos ts \<ge> 1000000000 then Some NanosOutOfRange
      else None)"

text \<open>
  \<^verbatim>\<open>ptypes.Timestamp\<close> returns \<^verbatim>\<open>time.Unix(ts.Seconds, ts.Nanos).UTC()\<close> together
  with the verdict of \<^verbatim>\<open>validateTimestamp\<close>; the driver reads the time only when the
  error is nil, so the model returns one or the other.
\<close>

definition ptypesTimestamp :: "Timestamp \<Rightarrow> tserror + Time" where
  "ptypesTimestamp ts =
     (case validateTimestamp ts of
        Some e \<Rightarrow> Inl e
      | None \<Rightarrow> Inr (Unix (Seconds ts) (Nanos ts)))"

subsection \<open>\<^verbatim>\<open>notAfterForLog\<close>\<close>

type_synonym pubkey = string

record LogConfig =
  Prefix :: string
  PublicKey :: pubkey
  ExpectedMergeDelaySec :: int
  NotAfterStart :: "Timestamp option"
  NotAfterLimit :: "Timestamp option"

datatype naerror = ParseNotAfterStart tserror | ParseNotAfterLimit tserror

text \<open>The first argument is the reading of \<^verbatim>\<open>time.Now()\<close>.\<close>

definition notAfterForLog :: "Time \<Rightarrow> LogConfig \<Rightarrow> naerror + Time" where
  "notAfterForLog now c =
     (case (NotAfterStart c, NotAfterLimit c) of
        (None, None) \<Rightarrow> Inr (Add now (24 * Hour))
      | (Some s, lim) \<Rightarrow>
          (case ptypesTimestamp s of
             Inl e \<Rightarrow> Inl (ParseNotAfterStart e)
           | Inr start \<Rightarrow>
               (case lim of
                  None \<Rightarrow> Inr (Add start (24 * Hour))
                | Some l \<Rightarrow>
                    (case ptypesTimestamp l of
                       Inl e \<Rightarrow> Inl (ParseNotAfterLimit e)
                     | Inr limit \<Rightarrow>
                         Inr (Unix 0 (int64 (int64 (UnixNano limit - UnixNano start) sdiv 2
                                             + UnixNano start))))))
      | (None, Some l) \<Rightarrow>
          (case ptypesTimestamp l of
             Inl e \<Rightarrow> Inl (ParseNotAfterLimit e)
           | Inr limit \<Rightarrow> Inr (Add limit (- 1 * Hour))))"

subsection \<open>Flags\<close>

text \<open>
  The package-level flag variables. \<^verbatim>\<open>main\<close> overwrites \<^verbatim>\<open>*seed\<close>,
  \<^verbatim>\<open>*addChainBias\<close> and \<^verbatim>\<open>*addPreChainBias\<close>; the model passes the record on.
  No arithmetic is done on the \<^verbatim>\<open>int\<close> flags, they are compared and handed over.
\<close>

record Flags =
  banner :: bool
  httpServers :: string
  testDir :: string
  leafNotAfter :: string
  metricsEndpoint :: string
  seed :: int
  logConfig :: string
  mmd :: Duration
  operations :: int
  minGetEntries :: int
  maxGetEntries :: int
  oversizedGetEntries :: bool
  maxParallelChains :: int
  limit :: int
  ignoreErrors :: bool
  maxRetry :: Duration
  addChainBias :: int
  addPreChainBias :: int
  getSTHBias :: int
  getSTHConsistencyBias :: int
  getProofByHashBias :: int
  getEntriesBias :: int
  getRootsBias :: int
  getEntryAndProofBias :: int
  invalidChance :: int

text \<open>The defaults of the flag declarations.\<close>

definition defaultFlags :: Flags where
  "defaultFlags =
     \<lparr>banner = True, httpServers = ''localhost:8092'', testDir = ''testdata'',
      leafNotAfter = [], metricsEndpoint = [], seed = - 1, logConfig = [],
      mmd = 2 * (60 * Second), operations = 18446744073709551615,
      minGetEntries = 1, maxGetEntries = 500, oversizedGetEntries = False,
      maxParallelChains = 2, limit = 0, ignoreErrors = False, maxRetry = 60 * Second,
      addChainBias = 20, addPreChainBias = 20, getSTHBias = 2, getSTHConsistencyBias = 2,
      getProofByHashBias = 2, getEntriesBias = 2, getRootsBias = 1,
      getEntryAndProofBias = 0, invalidChance = 10\<rparr>"

subsection \<open>The bias table\<close>

text \<open>
  Modelled from the spec: the constants \<^verbatim>\<open>ctfe.AddChainName\<close> ...
  \<^verbatim>\<open>ctfe.GetEntryAndProofName\<close> are declared in package \<^verbatim>\<open>ctfe\<close>, which is not
  among the sources; they are the eight operation kinds of the spec. They are distinct
  constants (Go rejects a map literal with a duplicate constant key), hence one
  constructor each.
\<close>

datatype EntrypointName =
    AddChainName
  | AddPreChainName
  | GetSTHName
  | GetSTHConsistencyName
  | GetProofByHashName
  | GetEntriesName
  | GetRootsName
  | GetEntryAndProofName

record HammerBias =
  Bias :: "EntrypointName \<rightharpoonup> int"
  InvalidChance :: "EntrypointName \<rightharpoonup> int"

text \<open>Lines 124 to 145 of \<^verbatim>\<open>main\<close>: the two map literals.\<close>

definition hammerBias :: "Flags \<Rightarrow> HammerBias" where
  "hammerBias fl =
     \<lparr>Bias =
        [AddChainName \<mapsto> addChainBias fl,
         AddPreChainName \<mapsto> addPreChainBias fl,
         GetSTHName \<mapsto> getSTHBias fl,
         GetSTHConsistencyName \<mapsto> getSTHConsistencyBias fl,
         GetProofByHashName \<mapsto> getProofByHashBias fl,
         GetEntriesName \<mapsto> getEntriesBias fl,
         GetRootsName \<mapsto> getRootsBias fl,
         GetEntryAndProofName \<mapsto> getEntryAndProofBias fl],
      InvalidChance =
        [AddChainName \<mapsto> invalidChance fl,
         AddPreChainName \<mapsto> invalidChance fl,
         GetSTHName \<mapsto> 0,
         GetSTHConsistencyName \<mapsto> invalidChance fl,
         GetProofByHashName \<mapsto> invalidChance fl,
         GetEntriesName \<mapsto> invalidChance fl,
         GetRootsName \<mapsto> 0,
         GetEntryAndProofName \<mapsto> 0]\<rparr>"

subsection \<open>\<^verbatim>\<open>newLimiter\<close>\<close>

text \<open>
  \<^verbatim>\<open>ratelimiter.NewLimiter(rate)\<close> is kept as a constructor that records the rate it
  was called with; the nil interface value is \<open>None\<close>.
\<close>

datatype Limiter = NewLimiter int

definition newLimiter :: "int \<Rightarrow> Limiter option" where
  "newLimiter rate = (if rate \<le> 0 then None else Some (NewLimiter rate))"

subsection \<open>The worker's parameters\<close>

type_synonym chain = "string list"

datatype Signer = Signer string

datatype MetricFactory = PrometheusMetricFactory | InertMetricFactory

text \<open>
  The client pool and the chain generator are built by the \<^verbatim>\<open>integration\<close>
  package. Each is kept as a constructor recording the arguments of the call; whether the
  call fails is decided by the environment below.
\<close>

datatype ClientPool = RandomPool string pubkey string

datatype ChainGenerator =
  SyntheticChainGenerator (genChain: chain) (genSigner: "Signer option") (genNotAfter: Time)

record HammerConfig =
  LogCfg :: LogConfig
  MetricFactory :: MetricFactory
  MMD :: Duration
  ChainGenerator :: ChainGenerator
  ClientPool :: ClientPool
  EPBias :: HammerBias
  MinGetEntries :: int
  MaxGetEntries :: int
  OversizedGetEntries :: bool
  Operations :: int
  Limiter :: "Limiter option"
  MaxParallelChains :: int
  IgnoreErrors :: bool
  MaxRetryDuration :: Duration

text \<open>The local type \<^verbatim>\<open>result\<close> of \<^verbatim>\<open>main\<close>; a nil error is \<open>None\<close>.\<close>

record result =
  prefix :: string
  err :: "string option"

text \<open>
  What a call of \<^verbatim>\<open>integration.HammerCTLog\<close> does: it returns, with or without an
  error, or it never returns (the default operation budget is \<^verbatim>\<open>^uint64(0)\<close>).
\<close>

datatype campaign = Returned "string option" | NeverReturns

subsection \<open>The environment of a run\<close>

text \<open>
  Everything \<^verbatim>\<open>main\<close> obtains from outside the file: the file system, the library
  calls that can fail, the clock, the workers and the moments at which they send their
  results. \<open>timeParse\<close> is \<^verbatim>\<open>time.Parse(time.RFC3339, _)\<close>; \<open>Now i\<close> is the
  reading of \<^verbatim>\<open>time.Now()\<close> in the loop iteration of the \<open>i\<close>-th log;
  \<open>finishTime i\<close> is the moment at which the worker launched in that iteration sends
  its result, if it returns.
\<close>

record Env =
  LogConfigFromFile :: "string \<Rightarrow> string + LogConfig list"
  GetChain :: "string \<Rightarrow> string \<Rightarrow> string + chain"
  MakeSigner :: "string \<Rightarrow> string + Signer"
  timeParse :: "string \<Rightarrow> string + Time"
  poolError :: "string \<Rightarrow> pubkey \<Rightarrow> string \<Rightarrow> string option"
  generatorError :: "chain \<Rightarrow> Signer option \<Rightarrow> Time \<Rightarrow> string option"
  HammerCTLog :: "HammerConfig \<Rightarrow> campaign"
  seedClock :: Time
  Now :: "nat \<Rightarrow> Time"
  finishTime :: "nat \<Rightarrow> nat"

definition NewRandomPool :: "Env \<Rightarrow> string \<Rightarrow> pubkey \<Rightarrow> string \<Rightarrow> string + ClientPool" where
  "NewRandomPool env servers pk pfx =
     (case poolError env servers pk pfx of
        Some e \<Rightarrow> Inl e
      | None \<Rightarrow> Inr (RandomPool servers pk pfx))"

definition NewSyntheticChainGenerator ::
  "Env \<Rightarrow> chain \<Rightarrow> Signer option \<Rightarrow> Time \<Rightarrow> string + ChainGenerator" where
  "NewSyntheticChainGenerator env ch sg notAfter =
     (case generatorError env ch sg notAfter of
        Some e \<Rightarrow> Inl e
      | None \<Rightarrow> Inr (SyntheticChainGenerator ch sg notAfter))"

subsection \<open>\<^verbatim>\<open>main\<close>\<close>

text \<open>Every \<^verbatim>\<open>glog.Exit\<close> and \<^verbatim>\<open>glog.Exitf\<close> of \<^verbatim>\<open>main\<close>, in source order.\<close>

datatype fatal =
    NoLogConfig
  | ReadLogConfigFailed string
  | LoadCertificateFailed string
  | RetrieveSignerFailed string
  | ParseLeafNotAfterFailed string
  | CreateClientPoolFailed string
  | DetermineNotAfterFailed string naerror
  | BuildChainGeneratorFailed string
  | NonZeroErrorCount nat

text \<open>
  How a run ends: a \<^verbatim>\<open>glog.Exit\<close>, the normal return of \<^verbatim>\<open>main\<close>, or
  \<^verbatim>\<open>wg.Wait()\<close> blocking for ever on a worker that does not return.
\<close>

datatype status = Exited fatal | Done | Blocked

text \<open>The messages logged from \<^verbatim>\<open>wg.Wait()\<close> on, with their arguments.\<close>

datatype logline =
    CompletedTests nat
  | LogFailed string string
  | NoErrorsDone

record Run =
  rngSeed :: "int option"
  launched :: "HammerConfig list"
  logged :: "logline list"
  status :: status

text \<open>
  Lines 98 to 114: the test data. With an empty \<^verbatim>\<open>testdata_dir\<close> the chain and the
  signer stay nil and the two add biases are zeroed.
\<close>

definition testData :: "Env \<Rightarrow> Flags \<Rightarrow> fatal + (chain \<times> Signer option \<times> Flags)" where
  "testData env fl =
     (if testDir fl \<noteq> [] then
        (case GetChain env (testDir fl) ''leaf01.chain'' of
           Inl e \<Rightarrow> Inl (LoadCertificateFailed e)
         | Inr leafChain \<Rightarrow>
             (case MakeSigner env (testDir fl) of
                Inl e \<Rightarrow> Inl (RetrieveSignerFailed e)
              | Inr sg \<Rightarrow> Inr (leafChain, Some sg, fl)))
      else Inr ([], None, fl\<lparr>addChainBias := 0, addPreChainBias := 0\<rparr>))"

text \<open>Lines 116 to 122: the override; the zero \<^verbatim>\<open>time.Time\<close> when the flag is empty.\<close>

definition parseLeafNotAfter :: "Env \<Rightarrow> Flags \<Rightarrow> fatal + Time" where
  "parseLeafNotAfter env fl =
     (if leafNotAfter fl \<noteq> [] then
        (case timeParse env (leafNotAfter fl) of
           Inl e \<Rightarrow> Inl (ParseLeafNotAfterFailed e)
         | Inr t \<Rightarrow> Inr t)
      else Inr zeroTime)"

text \<open>
  Lines 147 to 159: the metric factory. The goroutine serving the metrics endpoint only
  logs when the server exits and is left out.
\<close>

definition metricFactory :: "Flags \<Rightarrow> MetricFactory" where
  "metricFactory fl =
     (if metricsEndpoint fl \<noteq> [] then PrometheusMetricFactory else InertMetricFactory)"

text \<open>The variables of \<^verbatim>\<open>main\<close> that the loop reads.\<close>

record Locals =
  leafChain :: chain
  signer :: "Signer option"
  notAfterOverride :: Time
  bias :: HammerBias
  mf :: MetricFactory

text \<open>Lines 196 to 202: the \<^verbatim>\<open>notAfter\<close> of the log at position \<open>i\<close>.\<close>

definition logNotAfter :: "Env \<Rightarrow> Time \<Rightarrow> nat \<Rightarrow> LogConfig \<Rightarrow> fatal + Time" where
  "logNotAfter env override i c =
     (if IsZero override then
        (case notAfterForLog (Now env i) c of
           Inl e \<Rightarrow> Inl (DetermineNotAfterFailed (Prefix c) e)
         | Inr t \<Rightarrow> Inr t)
      else Inr override)"

text \<open>
  Lines 184 to 223: one iteration of the loop up to the \<^verbatim>\<open>go\<close> statement; it ends the
  process or yields the configuration the worker is launched with.
\<close>

definition prepare :: "Env \<Rightarrow> Flags \<Rightarrow> Locals \<Rightarrow> nat \<Rightarrow> LogConfig \<Rightarrow> fatal + HammerConfig" where
  "prepare env fl loc i c =
     (case NewRandomPool env (httpServers fl) (PublicKey c) (Prefix c) of
        Inl e \<Rightarrow> Inl (CreateClientPoolFailed e)
      | Inr pool \<Rightarrow>
          (let emd = ExpectedMergeDelaySec c;
               mmd1 = (if emd \<noteq> 0 then int64 (Second * emd) else mmd fl)
           in case logNotAfter env (notAfterOverride loc) i c of
                Inl f \<Rightarrow> Inl f
              | Inr notAfter \<Rightarrow>
                  (case NewSyntheticChainGenerator env (leafChain loc) (signer loc) notAfter of
                     Inl e \<Rightarrow> Inl (BuildChainGeneratorFailed e)
                   | Inr generator \<Rightarrow>
                       Inr \<lparr>LogCfg = c,
                            MetricFactory = mf loc,
                            MMD = mmd1,
                            ChainGenerator = generator,
                            ClientPool = pool,
                            EPBias = bias loc,
                            MinGetEntries = minGetEntries fl,
                            MaxGetEntries = maxGetEntries fl,
                            OversizedGetEntries = oversizedGetEntries fl,
                            Operations = operations fl,
                            Limiter = newLimiter (limit fl),
                            MaxParallelChains = maxParallelChains fl,
                            IgnoreErrors = ignoreErrors fl,
                            MaxRetryDuration = maxRetry fl\<rparr>)))"

text \<open>
  The loop of lines 182 to 229 over the logs from position \<open>i\<close> on: the configurations of
  the workers launched, in launch order, and the \<^verbatim>\<open>glog.Exitf\<close> that stopped the loop,
  if any. The worker of a log is launched in the iteration that prepared it, before the
  next log is looked at.
\<close>

fun launchWorkers ::
  "Env \<Rightarrow> Flags \<Rightarrow> Locals \<Rightarrow> nat \<Rightarrow> LogConfig list \<Rightarrow> HammerConfig list \<times> fatal option" where
  "launchWorkers env fl loc i [] = ([], None)"
| "launchWorkers env fl loc i (c # cs) =
     (case prepare env fl loc i c of
        Inl f \<Rightarrow> ([], Some f)
      | Inr h \<Rightarrow>
          (case launchWorkers env fl loc (Suc i) cs of
             (hs, r) \<Rightarrow> (h # hs, r)))"

text \<open>
  The worker goroutine of lines 224 to 228: the result it sends, if
  \<^verbatim>\<open>HammerCTLog\<close> returns.
\<close>

definition worker :: "Env \<Rightarrow> HammerConfig \<Rightarrow> result option" where
  "worker env h =
     (case HammerCTLog env h of
        Returned e \<Rightarrow> Some \<lparr>prefix = Prefix (LogCfg h), err = e\<rparr>
      | NeverReturns \<Rightarrow> None)"

text \<open>\<^verbatim>\<open>wg.Wait()\<close>: the results sent, if every worker returns.\<close>

fun joinWorkers :: "Env \<Rightarrow> HammerConfig list \<Rightarrow> result list option" where
  "joinWorkers env [] = Some []"
| "joinWorkers env (h # hs) =
     (case worker env h of
        None \<Rightarrow> None
      | Some r \<Rightarrow> (case joinWorkers env hs of None \<Rightarrow> None | Some rs \<Rightarrow> Some (r # rs)))"

text \<open>
  The channel \<^verbatim>\<open>results\<close>, buffered for one result per log: it hands the results
  over in the order in which they were sent. The argument lists the results by launch
  position; results sent at the same moment are taken in launch order.
\<close>

definition channelOrder :: "Env \<Rightarrow> result list \<Rightarrow> result list" where
  "channelOrder env rs =
     map snd (sort_key fst (zip (map (finishTime env) [0..<length rs]) rs))"

text \<open>Lines 234 to 240: the loop over the closed channel.\<close>

fun countErrors :: "result list \<Rightarrow> nat \<Rightarrow> logline list \<Rightarrow> nat \<times> logline list" where
  "countErrors [] errCount out = (errCount, out)"
| "countErrors (e # es) errCount out =
     (case err e of
        Some x \<Rightarrow> countErrors es (errCount + 1) (out @ [LogFailed (prefix e) x])
      | None \<Rightarrow> countErrors es errCount out)"

text \<open>Lines 232 to 244, for the results in the order the channel hands them over.\<close>

definition aggregate :: "nat \<Rightarrow> result list \<Rightarrow> logline list \<times> status" where
  "aggregate n rs =
     (case countErrors rs 0 [CompletedTests n] of
        (errCount, out) \<Rightarrow>
          if errCount > 0 then (out, Exited (NonZeroErrorCount errCount))
          else (out @ [NoErrorsDone], Done))"

definition abort :: "int option \<Rightarrow> fatal \<Rightarrow> Run" where
  "abort sd f = \<lparr>rngSeed = sd, launched = [], logged = [], status = Exited f\<rparr>"

text \<open>Lines 87 to 91: the seed handed to \<^verbatim>\<open>rand.Seed\<close>.\<close>

definition chooseSeed :: "Env \<Rightarrow> Flags \<Rightarrow> int" where
  "chooseSeed env fl =
     (if seed fl = - 1 then UnixNano (seedClock env) mod 4294967296 else seed fl)"

text \<open>
  Lines 84 to 159: everything before the loop over the logs. It ends the process or yields
  the log configurations, the flags as rewritten and the variables the loop reads.
\<close>

definition startup :: "Env \<Rightarrow> Flags \<Rightarrow> fatal + (LogConfig list \<times> Flags \<times> Locals)" where
  "startup env fl0 =
     (if logConfig fl0 = [] then Inl NoLogConfig
      else
        case LogConfigFromFile env (logConfig fl0) of
          Inl e \<Rightarrow> Inl (ReadLogConfigFailed e)
        | Inr cfg \<Rightarrow>
            (case testData env fl0 of
               Inl f \<Rightarrow> Inl f
             | Inr (ch, sg, fl) \<Rightarrow>
                 (case parseLeafNotAfter env fl of
                    Inl f \<Rightarrow> Inl f
                  | Inr override \<Rightarrow>
                      Inr (cfg, fl,
                           \<lparr>leafChain = ch, signer = sg, notAfterOverride = override,
                            bias = hammerBias fl, mf = metricFactory fl\<rparr>))))"

text \<open>
  Lines 176 to 245: the loop, the wait for the workers and the aggregation. The result is
  the list of workers launched, the lines logged and the way the process ends.
\<close>

definition fleet ::
  "Env \<Rightarrow> Flags \<Rightarrow> Locals \<Rightarrow> LogConfig list \<Rightarrow> HammerConfig list \<times> logline list \<times> status" where
  "fleet env fl loc cfg =
     (case launchWorkers env fl loc 0 cfg of
        (hs, Some f) \<Rightarrow> (hs, [], Exited f)
      | (hs, None) \<Rightarrow>
          (case joinWorkers env hs of
             None \<Rightarrow> (hs, [], Blocked)
           | Some rs \<Rightarrow>
               (case aggregate (length cfg) (channelOrder env rs) of
                  (out, st) \<Rightarrow> (hs, out, st))))"

definition main :: "Env \<Rightarrow> Flags \<Rightarrow> Run" where
  "main env fl0 =
     (let sd = (if logConfig fl0 = [] then None else Some (chooseSeed env fl0))
      in case startup env fl0 of
           Inl f \<Rightarrow> abort sd f
         | Inr (cfg, fl, loc) \<Rightarrow>
             (case fleet env fl loc cfg of
                (hs, out, st) \<Rightarrow>
                  \<lparr>rngSeed = sd, launched = hs, logged = out, status = st\<rparr>))"

subsection \<open>Notions used to state the properties\<close>

text \<open>The instant a protobuf timestamp denotes, in nanoseconds since the Unix epoch.\<close>

definition tsNanos :: "Timestamp \<Rightarrow> int" where
  "tsNanos ts = Seconds ts * 1000000000 + Nanos ts"

definition inInt64 :: "int \<Rightarrow> bool" where
  "inInt64 k \<longleftrightarrow> - 9223372036854775808 \<le> k \<and> k < 9223372036854775808"

text \<open>The prefixes named by the \<^verbatim>\<open>failed with\<close> lines of the log, in order.\<close>

fun reportedPrefixes :: "logline list \<Rightarrow> string list" where
  "reportedPrefixes [] = []"
| "reportedPrefixes (LogFailed p e # ls) = p # reportedPrefixes ls"
| "reportedPrefixes (l # ls) = reportedPrefixes ls"

definition failed :: "result \<Rightarrow> bool" where
  "failed r \<longleftrightarrow> err r \<noteq> None"

text \<open>
  The result a worker sends when its campaign returns: the prefix of its log and the error
  of the campaign.
\<close>

definition resultOf :: "Env \<Rightarrow> HammerConfig \<Rightarrow> result" where
  "resultOf env h =
     \<lparr>prefix = Prefix (LogCfg h),
      err = (case HammerCTLog env h of Returned e \<Rightarrow> e | NeverReturns \<Rightarrow> None)\<rparr>"

text \<open>
  The configuration error of the log \<open>c\<close> at position \<open>i\<close>, if it has one, read off the
  environment and the log: the client pool cannot be built; or it can, no override other
  than the zero time is in force and \<^verbatim>\<open>notAfterForLog\<close> returns an error; or the chain
  generator cannot be built for the \<^verbatim>\<open>notAfter\<close> of the log.
\<close>

definition logFault :: "Env \<Rightarrow> Flags \<Rightarrow> Locals \<Rightarrow> nat \<Rightarrow> LogConfig \<Rightarrow> fatal option" where
  "logFault env fl loc i c =
     (case poolError env (httpServers fl) (PublicKey c) (Prefix c) of
        Some e \<Rightarrow> Some (CreateClientPoolFailed e)
      | None \<Rightarrow>
          (case
             (if IsZero (notAfterOverride loc) then notAfterForLog (Now env i) c
              else Inr (notAfterOverride loc))
           of
             Inl e \<Rightarrow> Some (DetermineNotAfterFailed (Prefix c) e)
           | Inr t \<Rightarrow>
               (case generatorError env (leafChain loc) (signer loc) t of
                  Some e \<Rightarrow> Some (BuildChainGeneratorFailed e)
                | None \<Rightarrow> None)))"

text \<open>Whether the campaign of a worker returns with an error.\<close>

definition workerFailed :: "Env \<Rightarrow> HammerConfig \<Rightarrow> bool" where
  "workerFailed env h \<longleftrightarrow>
     (case HammerCTLog env h of Returned (Some e) \<Rightarrow> True | _ \<Rightarrow> False)"

definition entrypoints :: "EntrypointName list" where
  "entrypoints =
     [AddChainName, AddPreChainName, GetSTHName, GetSTHConsistencyName,
      GetProofByHashName, GetEntriesName, GetRootsName, GetEntryAndProofName]"

definition allZeroBias :: "HammerBias \<Rightarrow> bool" where
  "allZeroBias b \<longleftrightarrow> list_all (\<lambda>ep. Bias b ep = Some 0) entrypoints"

text \<open>
  The exits that report a configuration error, as opposed to the exit that reports the
  workers' error count; \<open>perLogFatal\<close> are those raised inside the loop over the logs.
\<close>

fun perLogFatal :: "fatal \<Rightarrow> bool" where
  "perLogFatal (CreateClientPoolFailed e) = True"
| "perLogFatal (DetermineNotAfterFailed p e) = True"
| "perLogFatal (BuildChainGeneratorFailed e) = True"
| "perLogFatal f = False"

fun configFatal :: "fatal \<Rightarrow> bool" where
  "configFatal (NonZeroErrorCount n) = False"
| "configFatal f = True"

text \<open>The flags \<open>fl\<close> with the eight bias weights taken from \<open>w\<close>.\<close>

definition weights :: "Flags \<Rightarrow> Flags \<Rightarrow> Flags" where
  "weights w fl =
     fl\<lparr>addChainBias := addChainBias w, addPreChainBias := addPreChainBias w,
        getSTHBias := getSTHBias w, getSTHConsistencyBias := getSTHConsistencyBias w,
        getProofByHashBias := getProofByHashBias w, getEntriesBias := getEntriesBias w,
        getRootsBias := getRootsBias w, getEntryAndProofBias := getEntryAndProofBias w\<rparr>"

subsection \<open>A fragment of \<^verbatim>\<open>time.Parse(time.RFC3339, _)\<close>\<close>

text \<open>
  \<^verbatim>\<open>time.Parse\<close> belongs to Go's standard library and enters \<^verbatim>\<open>main\<close> through the
  environment. To run \<^verbatim>\<open>main\<close> on concrete command lines, \<open>parseRFC3339Z\<close> gives
  its result on the fixed-width UTC layout \<^verbatim>\<open>YYYY-MM-DDTHH:MM:SSZ\<close>: the fields are
  range-checked and the date is converted to seconds since January 1 of year 1 in the
  proleptic Gregorian calendar. Fractional seconds and numeric zone offsets, which Go
  accepts as well, are outside this fragment and are reported as errors here, so the
  fragment is only applied to strings of that layout.
\<close>

definition digit :: "char \<Rightarrow> int option" where
  "digit c =
     (let n = (of_char c :: nat) in if 48 \<le> n \<and> n \<le> 57 then Some (int n - 48) else None)"

fun number :: "string \<Rightarrow> int \<Rightarrow> int option" where
  "number [] a = Some a"
| "number (c # cs) a = (case digit c of None \<Rightarrow> None | Some d \<Rightarrow> number cs (a * 10 + d))"

definition isLeap :: "int \<Rightarrow> bool" where
  "isLeap y \<longleftrightarrow> y mod 4 = 0 \<and> (y mod 100 \<noteq> 0 \<or> y mod 400 = 0)"

definition daysIn :: "int \<Rightarrow> int \<Rightarrow> int" where
  "daysIn m y =
     (if m = 2 then (if isLeap y then 29 else 28)
      else if m = 4 \<or> m = 6 \<or> m = 9 \<or> m = 11 then 30 else 31)"

definition daysBefore :: "int \<Rightarrow> int" where
  "daysBefore m = [0, 31, 59, 90, 120, 151, 181, 212, 243, 273, 304, 334] ! nat (m - 1)"

definition Date :: "int \<Rightarrow> int \<Rightarrow> int \<Rightarrow> int \<Rightarrow> int \<Rightarrow> int \<Rightarrow> Time" where
  "Date y m d hh mi ss =
     (let days = 365 * (y - 1) + (y - 1) div 4 - (y - 1) div 100 + (y - 1) div 400
                 + daysBefore m + (if m > 2 \<and> isLeap y then 1 else 0) + (d - 1)
      in \<lparr>sec = days * 86400 + hh * 3600 + mi * 60 + ss, nsec = 0\<rparr>)"

definition field :: "string \<Rightarrow> nat \<Rightarrow> nat \<Rightarrow> int option" where
  "field s i n = number (take n (drop i s)) 0"

definition parseRFC3339Z :: "string \<Rightarrow> string + Time" where
  "parseRFC3339Z s =
     (if length s = 20 \<and> s ! 4 = CHR ''-'' \<and> s ! 7 = CHR ''-'' \<and> s ! 10 = CHR ''T''
         \<and> s ! 13 = CHR '':'' \<and> s ! 16 = CHR '':'' \<and> s ! 19 = CHR ''Z''
      then
        (case (field s 0 4, field s 5 2, field s 8 2, field s 11 2, field s 14 2, field s 17 2) of
           (Some y, Some m, Some d, Some hh, Some mi, Some ss) \<Rightarrow>
             if m < 1 \<or> m > 12 then Inl ''month out of range''
             else if d < 1 \<or> d > daysIn m y then Inl ''day out of range''
             else if hh \<ge> 24 then Inl ''hour out of range''
             else if mi \<ge> 60 then Inl ''minute out of range''
             else if ss \<ge> 60 then Inl ''second out of range''
             else Inr (Date y m d hh mi ss)
         | _ \<Rightarrow> Inl ''cannot parse'')
      else Inl ''layout outside the fragment'')"

subsection \<open>Concrete runs\<close>

text \<open>
  Logs, environments and command lines on which the theorems below are instantiated.
  \<open>clock2017\<close> is 2017-11-26T12:29:19Z.
\<close>

definition clock2017 :: Time where
  "clock2017 = Unix 1511699359 0"

definition logPlain :: LogConfig where
  "logPlain = \<lparr>Prefix = ''a'', PublicKey = ''keyA'', ExpectedMergeDelaySec = 0,
               NotAfterStart = None, NotAfterLimit = None\<rparr>"

text \<open>A start bound whose nanoseconds are out of range.\<close>

definition logMalformed :: LogConfig where
  "logMalformed = \<lparr>Prefix = ''b'', PublicKey = ''keyB'', ExpectedMergeDelaySec = 0,
                   NotAfterStart = Some \<lparr>Seconds = 1514764800, Nanos = - 1\<rparr>,
                   NotAfterLimit = None\<rparr>"

text \<open>The shard from 2018-01-01T00:00:00Z to 2018-01-01T10:00:00Z.\<close>

definition logShard :: LogConfig where
  "logShard = \<lparr>Prefix = ''c'', PublicKey = ''keyC'', ExpectedMergeDelaySec = 0,
               NotAfterStart = Some \<lparr>Seconds = 1514764800, Nanos = 0\<rparr>,
               NotAfterLimit = Some \<lparr>Seconds = 1514800800, Nanos = 0\<rparr>\<rparr>"

definition logStartOnly :: LogConfig where
  "logStartOnly = \<lparr>Prefix = ''d'', PublicKey = ''keyD'', ExpectedMergeDelaySec = 0,
                   NotAfterStart = Some \<lparr>Seconds = 1514764800, Nanos = 0\<rparr>,
                   NotAfterLimit = None\<rparr>"

definition logLimitOnly :: LogConfig where
  "logLimitOnly = \<lparr>Prefix = ''e'', PublicKey = ''keyE'', ExpectedMergeDelaySec = 0,
                   NotAfterStart = None,
                   NotAfterLimit = Some \<lparr>Seconds = 1514764800, Nanos = 0\<rparr>\<rparr>"

text \<open>The shard from 3000-01-01T00:00:00Z to 3001-01-01T00:00:00Z.\<close>

definition logFarShard :: LogConfig where
  "logFarShard = \<lparr>Prefix = ''f'', PublicKey = ''keyF'', ExpectedMergeDelaySec = 0,
                  NotAfterStart = Some \<lparr>Seconds = 32503680000, Nanos = 0\<rparr>,
                  NotAfterLimit = Some \<lparr>Seconds = 32535216000, Nanos = 0\<rparr>\<rparr>"

text \<open>A start bound before the year 1, with a valid limit bound.\<close>

definition logBadStart :: LogConfig where
  "logBadStart = \<lparr>Prefix = ''i'', PublicKey = ''keyI'', ExpectedMergeDelaySec = 0,
                  NotAfterStart = Some \<lparr>Seconds = - 62135596801, Nanos = 0\<rparr>,
                  NotAfterLimit = Some \<lparr>Seconds = 1514764800, Nanos = 0\<rparr>\<rparr>"

text \<open>A limit bound alone, with a full second of nanoseconds.\<close>

definition logBadLimitOnly :: LogConfig where
  "logBadLimitOnly = \<lparr>Prefix = ''j'', PublicKey = ''keyJ'', ExpectedMergeDelaySec = 0,
                      NotAfterStart = None,
                      NotAfterLimit = Some \<lparr>Seconds = 1514764800, Nanos = 1000000000\<rparr>\<rparr>"

text \<open>A limit bound of 2017-01-01T00:00:00Z, before the clock reading.\<close>

definition logExpired :: LogConfig where
  "logExpired = \<lparr>Prefix = ''g'', PublicKey = ''keyG'', ExpectedMergeDelaySec = 0,
                 NotAfterStart = None,
                 NotAfterLimit = Some \<lparr>Seconds = 1483228800, Nanos = 0\<rparr>\<rparr>"

text \<open>A limit bound whose seconds lie after the year 9999.\<close>

definition logBadLimit :: LogConfig where
  "logBadLimit = \<lparr>Prefix = ''h'', PublicKey = ''keyH'', ExpectedMergeDelaySec = 0,
                  NotAfterStart = Some \<lparr>Seconds = 1514764800, Nanos = 0\<rparr>,
                  NotAfterLimit = Some \<lparr>Seconds = 253402300800, Nanos = 0\<rparr>\<rparr>"

definition logsABC :: "LogConfig list" where
  "logsABC = map (\<lambda>p. logPlain\<lparr>Prefix := p\<rparr>) [''A'', ''B'', ''C'']"

text \<open>
  An environment in which every library call succeeds, every worker returns without an
  error and the results arrive in launch order; the log configuration file holds \<open>cfg\<close>.
\<close>

definition envOf :: "LogConfig list \<Rightarrow> Env" where
  "envOf cfg =
     \<lparr>LogConfigFromFile = (\<lambda>f. Inr cfg),
      GetChain = (\<lambda>d f. Inr [''leaf'', ''intermediate'', ''root'']),
      MakeSigner = (\<lambda>d. Inr (Signer ''int-ca.privkey'')),
      timeParse = parseRFC3339Z,
      poolError = (\<lambda>s k p. None),
      generatorError = (\<lambda>ch sg t. None),
      HammerCTLog = (\<lambda>h. Returned None),
      seedClock = clock2017,
      Now = (\<lambda>i. clock2017),
      finishTime = (\<lambda>i. i)\<rparr>"

text \<open>
  The same, except that the campaigns of the logs whose prefix is in \<open>bad\<close> return with
  an error, those of the logs whose prefix is in \<open>stuck\<close> never return, and the workers
  send their results in the reverse of the launch order.
\<close>

definition envCampaigns :: "LogConfig list \<Rightarrow> string list \<Rightarrow> string list \<Rightarrow> Env" where
  "envCampaigns cfg bad stuck =
     (envOf cfg)
       \<lparr>HammerCTLog :=
          (\<lambda>h. if Prefix (LogCfg h) \<in> set stuck then NeverReturns
                else if Prefix (LogCfg h) \<in> set bad then Returned (Some ''boom'')
                else Returned None),
        finishTime := (\<lambda>i. 100 - i)\<rparr>"

text \<open>
  The same as \<open>envOf\<close>, except that the client pool cannot be built for the prefixes in
  \<open>noPool\<close> and the chain generator cannot be built for a \<^verbatim>\<open>notAfter\<close> before the
  clock reading.
\<close>

definition envFaulty :: "LogConfig list \<Rightarrow> string list \<Rightarrow> Env" where
  "envFaulty cfg noPool =
     (envOf cfg)
       \<lparr>poolError := (\<lambda>s k p. if p \<in> set noPool then Some ''no pool'' else None),
        generatorError :=
          (\<lambda>ch sg t. if instant t < instant clock2017 then Some ''expired'' else None)\<rparr>"

definition flagsBase :: Flags where
  "flagsBase = defaultFlags\<lparr>logConfig := ''logs.cfg'', seed := 42, operations := 100\<rparr>"

definition flagsAllZero :: Flags where
  "flagsAllZero =
     flagsBase\<lparr>addChainBias := 0, addPreChainBias := 0, getSTHBias := 0,
               getSTHConsistencyBias := 0, getProofByHashBias := 0, getEntriesBias := 0,
               getRootsBias := 0, getEntryAndProofBias := 0\<rparr>"

definition flagsOverride :: Flags where
  "flagsOverride = flagsBase\<lparr>leafNotAfter := ''2017-11-26T12:29:19Z''\<rparr>"

definition flagsZeroOverride :: Flags where
  "flagsZeroOverride = flagsBase\<lparr>leafNotAfter := ''0001-01-01T00:00:00Z''\<rparr>"

definition flagsNoTestData :: Flags where
  "flagsNoTestData = flagsBase\<lparr>testDir := []\<rparr>"

definition flagsLimited :: Flags where
  "flagsLimited = flagsBase\<lparr>limit := 50\<rparr>"

definition flagsBadOverride :: Flags where
  "flagsBadOverride = flagsBase\<lparr>leafNotAfter := ''tomorrow''\<rparr>"

text \<open>The variables of \<^verbatim>\<open>main\<close> when it enters the loop with \<open>flagsBase\<close>.\<close>

definition localsBase :: Locals where
  "localsBase =
     \<lparr>leafChain = [''leaf'', ''intermediate'', ''root''],
      signer = Some (Signer ''int-ca.privkey''),
      notAfterOverride = zeroTime,
      bias = hammerBias flagsBase,
      mf = InertMetricFactory\<rparr>"

subsection \<open>Facts about instants\<close>

lemma smod_bounds: "- 1000000000 < (d::int) smod 1000000000 \<and> d smod 1000000000 < 1000000000"
  using smod_int_range [of 1000000000 d] by simp

lemma sdiv_smod_billion: "(d::int) sdiv 1000000000 * 1000000000 + d smod 1000000000 = d"
  by (rule sdiv_mult_smod_eq)

lemma instant_Add: "instant (Add t d) = instant t + d"
proof -
  have "instant (Add t d) = instant t + (d sdiv 1000000000 * 1000000000 + d smod 1000000000)"
    by (simp add: Add_def instant_def Let_def algebra_simps)
  then show ?thesis by (simp only: sdiv_smod_billion)
qed

lemma normalised_Add: "normalised t \<Longrightarrow> normalised (Add t d)"
  using smod_bounds [of d] by (auto simp: Add_def normalised_def Let_def)

lemma instant_Unix: "instant (Unix s n) = s * 1000000000 + n"
proof -
  have "n - n sdiv 1000000000 * 1000000000 = n smod 1000000000"
    by (rule minus_sdiv_mult_eq_smod)
  then show ?thesis
    using sdiv_smod_billion [of n]
    by (simp add: Unix_def unixTime_def instant_def Let_def algebra_simps)
qed

lemma normalised_Unix: "normalised (Unix s n)"
proof -
  have "n - n sdiv 1000000000 * 1000000000 = n smod 1000000000"
    by (rule minus_sdiv_mult_eq_smod)
  then show ?thesis
    using smod_bounds [of n]
    by (auto simp: Unix_def unixTime_def normalised_def Let_def)
qed

lemma int64_id: "inInt64 k \<Longrightarrow> int64 k = k"
  by (simp add: inInt64_def int64_def)

lemma UnixNano_instant: "inInt64 (instant t) \<Longrightarrow> UnixNano t = instant t"
  by (simp add: UnixNano_def instant_def int64_id)

lemma ptypesTimestamp_valid:
  "validateTimestamp ts = None \<Longrightarrow> ptypesTimestamp ts = Inr (Unix (Seconds ts) (Nanos ts))"
  by (simp add: ptypesTimestamp_def)

lemma ptypesTimestamp_invalid:
  "validateTimestamp ts = Some e \<Longrightarrow> ptypesTimestamp ts = Inl e"
  by (simp add: ptypesTimestamp_def)

lemma instant_timestamp: "instant (Unix (Seconds ts) (Nanos ts)) = tsNanos ts"
  by (simp add: instant_Unix tsNanos_def)

lemma midpoint_inInt64:
  assumes "inInt64 a" "inInt64 b" "inInt64 (b - a)"
  shows "inInt64 ((b - a) sdiv 2 + a)"
proof -
  have "(b - a) sdiv 2 * 2 + (b - a) smod 2 = b - a" by (rule sdiv_mult_smod_eq)
  moreover have "- 2 < (b - a) smod 2 \<and> (b - a) smod 2 < 2"
    using smod_int_range [of 2 "b - a"] by simp
  moreover have "0 \<le> b - a \<Longrightarrow> 0 \<le> (b - a) smod 2" by (simp add: smod_int_compares)
  moreover have "b - a \<le> 0 \<Longrightarrow> (b - a) smod 2 \<le> 0" by (simp add: smod_int_compares)
  ultimately show ?thesis using assms unfolding inInt64_def by linarith
qed

lemma notAfterForLog_neither:
  "NotAfterStart c = None \<Longrightarrow> NotAfterLimit c = None \<Longrightarrow>
   notAfterForLog now c = Inr (Add now (24 * Hour))"
  by (simp add: notAfterForLog_def)

lemma notAfterForLog_start_only:
  "NotAfterStart c = Some s \<Longrightarrow> NotAfterLimit c = None \<Longrightarrow> validateTimestamp s = None \<Longrightarrow>
   notAfterForLog now c = Inr (Add (Unix (Seconds s) (Nanos s)) (24 * Hour))"
  by (simp add: notAfterForLog_def ptypesTimestamp_valid)

lemma notAfterForLog_limit_only:
  "NotAfterStart c = None \<Longrightarrow> NotAfterLimit c = Some l \<Longrightarrow> validateTimestamp l = None \<Longrightarrow>
   notAfterForLog now c = Inr (Add (Unix (Seconds l) (Nanos l)) (- 1 * Hour))"
  by (simp add: notAfterForLog_def ptypesTimestamp_valid)

lemma notAfterForLog_both:
  assumes "NotAfterStart c = Some s" "NotAfterLimit c = Some l"
    and "validateTimestamp s = None" "validateTimestamp l = None"
    and "inInt64 (tsNanos s)" "inInt64 (tsNanos l)" "inInt64 (tsNanos l - tsNanos s)"
  shows "notAfterForLog now c = Inr (Unix 0 ((tsNanos l - tsNanos s) sdiv 2 + tsNanos s))"
proof -
  have s: "UnixNano (Unix (Seconds s) (Nanos s)) = tsNanos s"
    using assms(5) by (simp add: UnixNano_instant instant_timestamp)
  have l: "UnixNano (Unix (Seconds l) (Nanos l)) = tsNanos l"
    using assms(6) by (simp add: UnixNano_instant instant_timestamp)
  have m: "int64 ((tsNanos l - tsNanos s) sdiv 2 + tsNanos s) = (tsNanos l - tsNanos s) sdiv 2 + tsNanos s"
    using assms(5-7) by (intro int64_id midpoint_inInt64)
  show ?thesis
    using assms(1-4) s l m
    by (simp add: notAfterForLog_def ptypesTimestamp_valid int64_id [OF assms(7)])
qed

subsection \<open>The temporal window (C1)\<close>

lemma notAfterForLog_bad_start:
  "NotAfterStart c = Some s \<Longrightarrow> validateTimestamp s = Some e \<Longrightarrow>
   notAfterForLog now c = Inl (ParseNotAfterStart e)"
  by (simp add: notAfterForLog_def ptypesTimestamp_invalid)

lemma notAfterForLog_bad_limit:
  "NotAfterStart c = Some s \<Longrightarrow> validateTimestamp s = None \<Longrightarrow>
   NotAfterLimit c = Some l \<Longrightarrow> validateTimestamp l = Some e \<Longrightarrow>
   notAfterForLog now c = Inl (ParseNotAfterLimit e)"
  by (simp add: notAfterForLog_def ptypesTimestamp_invalid ptypesTimestamp_valid)

lemma notAfterForLog_bad_limit_only:
  "NotAfterStart c = None \<Longrightarrow> NotAfterLimit c = Some l \<Longrightarrow> validateTimestamp l = Some e \<Longrightarrow>
   notAfterForLog now c = Inl (ParseNotAfterLimit e)"
  by (simp add: notAfterForLog_def ptypesTimestamp_invalid)

text \<open>
  C1, as stated, asks for a time for every log configuration. At \<open>logMalformed\<close>, where
  only \<^verbatim>\<open>NotAfterStart\<close> is set, \<^verbatim>\<open>notAfterForLog\<close> returns an error and no time:
  the bound does not pass \<^verbatim>\<open>ptypes.Timestamp\<close>.
\<close>

theorem notAfterForLog_window_counterexample:
  "NotAfterStart logMalformed = Some \<lparr>Seconds = 1514764800, Nanos = - 1\<rparr>
   \<and> NotAfterLimit logMalformed = None
   \<and> notAfterForLog clock2017 logMalformed = Inl (ParseNotAfterStart NanosOutOfRange)"
  by (simp add: logMalformed_def notAfterForLog_def ptypesTimestamp_def
      validateTimestamp_def minValidSeconds_def maxValidSeconds_def)

text \<open>
  C1, amended: for every reading \<open>now\<close> of the clock and every log configuration \<open>c\<close>,
  \<^item> when neither bound is set, \<^verbatim>\<open>notAfterForLog\<close> returns the instant \<open>now + 24h\<close>;
  \<^item> when only \<^verbatim>\<open>NotAfterStart\<close> is set and is a valid protobuf timestamp, it returns
    the instant \<open>start + 24h\<close>;
  \<^item> when both are set and valid, and the two bounds and their difference, counted in
    nanoseconds since the Unix epoch, fit into 64 bits, it returns the midpoint
    \<open>start + (limit - start) / 2\<close> with the quotient truncated towards zero;
  \<^item> when only \<^verbatim>\<open>NotAfterLimit\<close> is set and valid, it returns the instant
    \<open>limit - 1h\<close>;
  \<^item> when \<^verbatim>\<open>NotAfterStart\<close> is set and does not pass \<^verbatim>\<open>ptypes.Timestamp\<close>, it
    returns the error of parsing \<^verbatim>\<open>NotAfterStart\<close>, whatever the limit bound; when
    \<^verbatim>\<open>NotAfterLimit\<close> is set and does not pass, and the start bound is valid or not
    set, it returns the error of parsing \<^verbatim>\<open>NotAfterLimit\<close>.
\<close>

theorem notAfterForLog_window:
  "(NotAfterStart c = None \<and> NotAfterLimit c = None \<longrightarrow>
      map_sum id instant (notAfterForLog now c) = Inr (instant now + 24 * Hour))
   \<and> (NotAfterStart c = Some s \<and> NotAfterLimit c = None \<and> validateTimestamp s = None \<longrightarrow>
      map_sum id instant (notAfterForLog now c) = Inr (tsNanos s + 24 * Hour))
   \<and> (NotAfterStart c = Some s \<and> NotAfterLimit c = Some l
       \<and> validateTimestamp s = None \<and> validateTimestamp l = None
       \<and> inInt64 (tsNanos s) \<and> inInt64 (tsNanos l) \<and> inInt64 (tsNanos l - tsNanos s) \<longrightarrow>
      map_sum id instant (notAfterForLog now c)
        = Inr (tsNanos s + (tsNanos l - tsNanos s) sdiv 2))
   \<and> (NotAfterStart c = None \<and> NotAfterLimit c = Some l \<and> validateTimestamp l = None \<longrightarrow>
      map_sum id instant (notAfterForLog now c) = Inr (tsNanos l - Hour))
   \<and> (NotAfterStart c = Some s \<and> validateTimestamp s = Some e \<longrightarrow>
      notAfterForLog now c = Inl (ParseNotAfterStart e))
   \<and> (NotAfterStart c = Some s \<and> validateTimestamp s = None
       \<and> NotAfterLimit c = Some l \<and> validateTimestamp l = Some e \<longrightarrow>
      notAfterForLog now c = Inl (ParseNotAfterLimit e))
   \<and> (NotAfterStart c = None \<and> NotAfterLimit c = Some l \<and> validateTimestamp l = Some e \<longrightarrow>
      notAfterForLog now c = Inl (ParseNotAfterLimit e))"
proof (intro conjI impI)
  assume "NotAfterStart c = None \<and> NotAfterLimit c = None"
  then show "map_sum id instant (notAfterForLog now c) = Inr (instant now + 24 * Hour)"
    by (simp add: notAfterForLog_neither instant_Add)
next
  assume "NotAfterStart c = Some s \<and> NotAfterLimit c = None \<and> validateTimestamp s = None"
  then show "map_sum id instant (notAfterForLog now c) = Inr (tsNanos s + 24 * Hour)"
    by (simp add: notAfterForLog_start_only instant_Add instant_timestamp)
next
  assume "NotAfterStart c = Some s \<and> NotAfterLimit c = Some l
       \<and> validateTimestamp s = None \<and> validateTimestamp l = None
       \<and> inInt64 (tsNanos s) \<and> inInt64 (tsNanos l) \<and> inInt64 (tsNanos l - tsNanos s)"
  then have "notAfterForLog now c = Inr (Unix 0 ((tsNanos l - tsNanos s) sdiv 2 + tsNanos s))"
    by (intro notAfterForLog_both) simp_all
  then show "map_sum id instant (notAfterForLog now c)
        = Inr (tsNanos s + (tsNanos l - tsNanos s) sdiv 2)"
    by (simp add: instant_Unix)
next
  assume "NotAfterStart c = None \<and> NotAfterLimit c = Some l \<and> validateTimestamp l = None"
  then show "map_sum id instant (notAfterForLog now c) = Inr (tsNanos l - Hour)"
    by (simp add: notAfterForLog_limit_only instant_Add instant_timestamp)
next
  assume "NotAfterStart c = Some s \<and> validateTimestamp s = Some e"
  then show "notAfterForLog now c = Inl (ParseNotAfterStart e)"
    by (simp add: notAfterForLog_bad_start)
next
  assume "NotAfterStart c = Some s \<and> validateTimestamp s = None
       \<and> NotAfterLimit c = Some l \<and> validateTimestamp l = Some e"
  then show "notAfterForLog now c = Inl (ParseNotAfterLimit e)"
    by (simp add: notAfterForLog_bad_limit)
next
  assume "NotAfterStart c = None \<and> NotAfterLimit c = Some l \<and> validateTimestamp l = Some e"
  then show "notAfterForLog now c = Inl (ParseNotAfterLimit e)"
    by (simp add: notAfterForLog_bad_limit_only)
qed

text \<open>
  The cases at concrete logs, with the clock at 2017-11-26T12:29:19Z: a day later; a day
  after 2018-01-01T00:00:00Z; five hours into the ten-hour shard that starts there; an
  hour before it; a start bound before the year 1; a limit bound after the year 9999
  behind a valid start bound; a limit bound alone with a full second of nanoseconds.
\<close>

theorem notAfterForLog_window_witness:
  "map_sum id instant (notAfterForLog clock2017 logPlain) = Inr 1511785759000000000
   \<and> map_sum id instant (notAfterForLog clock2017 logStartOnly) = Inr 1514851200000000000
   \<and> map_sum id instant (notAfterForLog clock2017 logShard) = Inr 1514782800000000000
   \<and> map_sum id instant (notAfterForLog clock2017 logLimitOnly) = Inr 1514761200000000000
   \<and> notAfterForLog clock2017 logBadStart = Inl (ParseNotAfterStart BeforeYear1)
   \<and> notAfterForLog clock2017 logBadLimit = Inl (ParseNotAfterLimit AfterYear10000)
   \<and> notAfterForLog clock2017 logBadLimitOnly = Inl (ParseNotAfterLimit NanosOutOfRange)"
proof -
  have v: "validateTimestamp \<lparr>Seconds = 1514764800, Nanos = 0\<rparr> = None"
    "validateTimestamp \<lparr>Seconds = 1514800800, Nanos = 0\<rparr> = None"
    "validateTimestamp \<lparr>Seconds = - 62135596801, Nanos = 0\<rparr> = Some BeforeYear1"
    "validateTimestamp \<lparr>Seconds = 253402300800, Nanos = 0\<rparr> = Some AfterYear10000"
    "validateTimestamp \<lparr>Seconds = 1514764800, Nanos = 1000000000\<rparr> = Some NanosOutOfRange"
    by (simp_all add: validateTimestamp_def minValidSeconds_def maxValidSeconds_def)
  have i: "instant clock2017 = 1511699359000000000"
    by (simp add: clock2017_def instant_Unix)
  have a: "map_sum id instant (notAfterForLog clock2017 logPlain) = Inr 1511785759000000000"
    using notAfterForLog_window [where c = logPlain and now = clock2017]
    by (simp add: i logPlain_def Hour_def)
  have b: "map_sum id instant (notAfterForLog clock2017 logStartOnly) = Inr 1514851200000000000"
    using notAfterForLog_window [where c = logStartOnly and now = clock2017
        and s = "\<lparr>Seconds = 1514764800, Nanos = 0\<rparr>"]
    by (simp add: v logStartOnly_def tsNanos_def Hour_def)
  have c: "map_sum id instant (notAfterForLog clock2017 logShard) = Inr 1514782800000000000"
    using notAfterForLog_window [where c = logShard and now = clock2017
        and s = "\<lparr>Seconds = 1514764800, Nanos = 0\<rparr>"
        and l = "\<lparr>Seconds = 1514800800, Nanos = 0\<rparr>"]
    by (simp add: v logShard_def tsNanos_def inInt64_def)
  have d: "map_sum id instant (notAfterForLog clock2017 logLimitOnly) = Inr 1514761200000000000"
    using notAfterForLog_window [where c = logLimitOnly and now = clock2017
        and l = "\<lparr>Seconds = 1514764800, Nanos = 0\<rparr>"]
    by (simp add: v logLimitOnly_def tsNanos_def Hour_def)
  have e: "notAfterForLog clock2017 logBadStart = Inl (ParseNotAfterStart BeforeYear1)"
    using notAfterForLog_window [where c = logBadStart and now = clock2017
        and s = "\<lparr>Seconds = - 62135596801, Nanos = 0\<rparr>" and e = BeforeYear1]
    by (simp add: v logBadStart_def)
  have f: "notAfterForLog clock2017 logBadLimit = Inl (ParseNotAfterLimit AfterYear10000)"
    using notAfterForLog_window [where c = logBadLimit and now = clock2017
        and s = "\<lparr>Seconds = 1514764800, Nanos = 0\<rparr>"
        and l = "\<lparr>Seconds = 253402300800, Nanos = 0\<rparr>" and e = AfterYear10000]
    by (simp add: v logBadLimit_def)
  have g: "notAfterForLog clock2017 logBadLimitOnly = Inl (ParseNotAfterLimit NanosOutOfRange)"
    using notAfterForLog_window [where c = logBadLimitOnly and now = clock2017
        and l = "\<lparr>Seconds = 1514764800, Nanos = 1000000000\<rparr>" and e = NanosOutOfRange]
    by (simp add: v logBadLimitOnly_def)
  show ?thesis using a b c d e f g by simp
qed

text \<open>
  The amended claim says nothing about a shard whose bounds are valid timestamps outside
  the years 1678 to 2262: there \<^verbatim>\<open>UnixNano\<close> wraps around. At \<open>logFarShard\<close>, from
  3000-01-01 to 3001-01-01, the instant returned lies in the year 1831, before the shard.
\<close>

lemma notAfterForLog_far_shard:
  "map_sum id instant (notAfterForLog clock2017 logFarShard) = Inr (- 4374040147419103232)"
  by (simp add: logFarShard_def notAfterForLog_def ptypesTimestamp_def
      validateTimestamp_def minValidSeconds_def maxValidSeconds_def Unix_def unixTime_def
      UnixNano_def unixToInternal_def int64_def instant_def Let_def)

subsection \<open>Facts about the loop and about a run\<close>

lemma prepare_Inr:
  assumes "prepare env fl loc i c = Inr h"
  shows "LogCfg h = c" and "EPBias h = bias loc" and "Limiter h = newLimiter (limit fl)"
    and "logNotAfter env (notAfterOverride loc) i c = Inr (genNotAfter (ChainGenerator h))"
  using assms
  by (auto simp: prepare_def Let_def NewRandomPool_def NewSyntheticChainGenerator_def
      split: sum.splits option.splits)

lemma prepare_Inl: "prepare env fl loc i c = Inl f \<Longrightarrow> perLogFatal f"
  by (auto simp: prepare_def Let_def logNotAfter_def split: sum.splits if_splits)

lemma launchWorkers_Inl:
  "prepare env fl loc i c = Inl f \<Longrightarrow> launchWorkers env fl loc i (c # cs) = ([], Some f)"
  by simp

lemma launchWorkers_Inr:
  "prepare env fl loc i c = Inr h \<Longrightarrow>
   launchWorkers env fl loc i (c # cs)
     = (h # fst (launchWorkers env fl loc (Suc i) cs), snd (launchWorkers env fl loc (Suc i) cs))"
  by (simp split: prod.splits)

lemma launchWorkers_length:
  "length (fst (launchWorkers env fl loc i cs)) \<le> length cs"
proof (induction cs arbitrary: i)
  case Nil
  show ?case by simp
next
  case (Cons c cs)
  show ?case
  proof (cases "prepare env fl loc i c")
    case (Inl f)
    then show ?thesis by (simp add: launchWorkers_Inl del: launchWorkers.simps)
  next
    case (Inr h)
    then show ?thesis using Cons [of "Suc i"] by (simp add: launchWorkers_Inr del: launchWorkers.simps)
  qed
qed

lemma launchWorkers_complete:
  "snd (launchWorkers env fl loc i cs) = None \<Longrightarrow>
   length (fst (launchWorkers env fl loc i cs)) = length cs"
proof (induction cs arbitrary: i)
  case Nil
  show ?case by simp
next
  case (Cons c cs)
  show ?case
  proof (cases "prepare env fl loc i c")
    case (Inl f)
    then show ?thesis using Cons.prems by (simp add: launchWorkers_Inl del: launchWorkers.simps)
  next
    case (Inr h)
    then show ?thesis using Cons.IH [of "Suc i"] Cons.prems by (simp add: launchWorkers_Inr del: launchWorkers.simps)
  qed
qed

lemma launchWorkers_stop:
  "snd (launchWorkers env fl loc i cs) = Some f \<Longrightarrow>
   length (fst (launchWorkers env fl loc i cs)) < length cs
   \<and> prepare env fl loc (i + length (fst (launchWorkers env fl loc i cs)))
        (cs ! length (fst (launchWorkers env fl loc i cs))) = Inl f"
proof (induction cs arbitrary: i)
  case Nil
  then show ?case by simp
next
  case (Cons c cs)
  show ?case
  proof (cases "prepare env fl loc i c")
    case (Inl g)
    then show ?thesis using Cons.prems by (simp add: launchWorkers_Inl del: launchWorkers.simps)
  next
    case (Inr h)
    then show ?thesis using Cons.IH [of "Suc i"] Cons.prems by (simp add: launchWorkers_Inr del: launchWorkers.simps)
  qed
qed

lemma launchWorkers_nth:
  "j < length (fst (launchWorkers env fl loc i cs)) \<Longrightarrow>
   prepare env fl loc (i + j) (cs ! j) = Inr (fst (launchWorkers env fl loc i cs) ! j)"
proof (induction cs arbitrary: i j)
  case Nil
  then show ?case by simp
next
  case (Cons c cs)
  show ?case
  proof (cases "prepare env fl loc i c")
    case (Inl g)
    then show ?thesis using Cons.prems by (simp add: launchWorkers_Inl del: launchWorkers.simps)
  next
    case (Inr h)
    show ?thesis
    proof (cases j)
      case 0
      then show ?thesis using Inr by (simp add: launchWorkers_Inr del: launchWorkers.simps)
    next
      case (Suc k)
      then show ?thesis
        using Inr Cons.IH [of k "Suc i"] Cons.prems by (simp add: launchWorkers_Inr del: launchWorkers.simps)
    qed
  qed
qed

lemma launchWorkers_LogCfg:
  "map LogCfg (fst (launchWorkers env fl loc i cs))
     = take (length (fst (launchWorkers env fl loc i cs))) cs"
proof (induction cs arbitrary: i)
  case Nil
  show ?case by simp
next
  case (Cons c cs)
  show ?case
  proof (cases "prepare env fl loc i c")
    case (Inl g)
    then show ?thesis by (simp add: launchWorkers_Inl del: launchWorkers.simps)
  next
    case (Inr h)
    then show ?thesis
      using Cons [of "Suc i"] prepare_Inr(1) [OF Inr] by (simp add: launchWorkers_Inr del: launchWorkers.simps)
  qed
qed

lemma launchWorkers_member:
  assumes "h \<in> set (fst (launchWorkers env fl loc i cs))"
  shows "\<exists>j c. prepare env fl loc j c = Inr h"
proof -
  from assms obtain j where "j < length (fst (launchWorkers env fl loc i cs))"
    and "fst (launchWorkers env fl loc i cs) ! j = h"
    by (auto simp: in_set_conv_nth)
  then show ?thesis using launchWorkers_nth [of j env fl loc i cs] by auto
qed

lemma startup_Inl: "startup env fl0 = Inl f \<Longrightarrow> configFatal f \<and> \<not> perLogFatal f"
  by (auto simp: startup_def testData_def parseLeafNotAfter_def
      split: if_splits sum.splits prod.splits)

lemma main_startup_Inl:
  "startup env fl0 = Inl f \<Longrightarrow>
   launched (main env fl0) = [] \<and> logged (main env fl0) = [] \<and> status (main env fl0) = Exited f"
  by (simp add: main_def abort_def Let_def)

lemma fst_fleet: "fst (fleet env fl loc cfg) = fst (launchWorkers env fl loc 0 cfg)"
  by (auto simp: fleet_def split: prod.splits option.splits)

lemma launched_main:
  "startup env fl0 = Inr (cfg, fl, loc) \<Longrightarrow>
   launched (main env fl0) = fst (launchWorkers env fl loc 0 cfg)"
  using fst_fleet [of env fl loc cfg]
  by (cases "fleet env fl loc cfg") (simp add: main_def Let_def)

lemma status_main_stop:
  "startup env fl0 = Inr (cfg, fl, loc) \<Longrightarrow> snd (launchWorkers env fl loc 0 cfg) = Some f \<Longrightarrow>
   status (main env fl0) = Exited f \<and> logged (main env fl0) = []"
  by (cases "launchWorkers env fl loc 0 cfg") (simp add: main_def fleet_def Let_def split: prod.splits)

lemma status_main_blocked:
  "startup env fl0 = Inr (cfg, fl, loc) \<Longrightarrow> snd (launchWorkers env fl loc 0 cfg) = None \<Longrightarrow>
   joinWorkers env (fst (launchWorkers env fl loc 0 cfg)) = None \<Longrightarrow>
   status (main env fl0) = Blocked \<and> logged (main env fl0) = []"
  by (cases "launchWorkers env fl loc 0 cfg") (simp add: main_def fleet_def Let_def split: prod.splits)

lemma status_main_joined:
  "startup env fl0 = Inr (cfg, fl, loc) \<Longrightarrow> snd (launchWorkers env fl loc 0 cfg) = None \<Longrightarrow>
   joinWorkers env (fst (launchWorkers env fl loc 0 cfg)) = Some rs \<Longrightarrow>
   (logged (main env fl0), status (main env fl0))
     = aggregate (length cfg) (channelOrder env rs)"
  by (cases "launchWorkers env fl loc 0 cfg") (simp add: main_def fleet_def Let_def split: prod.splits)

lemma aggregate_status:
  "snd (aggregate n rs) = Done \<or> (\<exists>k. snd (aggregate n rs) = Exited (NonZeroErrorCount k))"
  by (simp add: aggregate_def split: prod.splits)

subsection \<open>Facts about the aggregation\<close>

lemma countErrors_eq:
  "countErrors rs n out
     = (n + length (filter failed rs),
        out @ map (\<lambda>r. LogFailed (prefix r) (the (err r))) (filter failed rs))"
  by (induction rs arbitrary: n out) (auto simp: failed_def split: option.splits)

lemma reportedPrefixes_append:
  "reportedPrefixes (xs @ ys) = reportedPrefixes xs @ reportedPrefixes ys"
  by (induction xs rule: reportedPrefixes.induct) simp_all

lemma reportedPrefixes_failed:
  "reportedPrefixes (map (\<lambda>r. LogFailed (prefix r) (the (err r))) rs) = map prefix rs"
  by (induction rs) simp_all

subsection \<open>The bias table (C4, C7)\<close>

text \<open>
  C4: whatever the flags, the invalid-chance entries of get-sth, get-roots and
  get-entry-and-proof are 0, and those of add-chain, add-pre-chain, get-sth-consistency,
  get-proof-by-hash and get-entries are the value of the \<^verbatim>\<open>invalid_chance\<close> flag.
\<close>

theorem hammerBias_InvalidChance:
  "InvalidChance (hammerBias fl) GetSTHName = Some 0
   \<and> InvalidChance (hammerBias fl) GetRootsName = Some 0
   \<and> InvalidChance (hammerBias fl) GetEntryAndProofName = Some 0
   \<and> InvalidChance (hammerBias fl) AddChainName = Some (invalidChance fl)
   \<and> InvalidChance (hammerBias fl) AddPreChainName = Some (invalidChance fl)
   \<and> InvalidChance (hammerBias fl) GetSTHConsistencyName = Some (invalidChance fl)
   \<and> InvalidChance (hammerBias fl) GetProofByHashName = Some (invalidChance fl)
   \<and> InvalidChance (hammerBias fl) GetEntriesName = Some (invalidChance fl)"
  by (simp add: hammerBias_def)

lemma startup_bias: "startup env fl0 = Inr (cfg, fl, loc) \<Longrightarrow> bias loc = hammerBias fl"
  by (auto simp: startup_def split: if_splits sum.splits prod.splits)

lemma EPBias_main:
  assumes "startup env fl0 = Inr (cfg, fl, loc)" "h \<in> set (launched (main env fl0))"
  shows "EPBias h = hammerBias fl"
proof -
  from assms obtain j c where "prepare env fl loc j c = Inr h"
    using launchWorkers_member [of h env fl loc 0 cfg] by (auto simp: launched_main)
  then show ?thesis using startup_bias [OF assms(1)] by (simp add: prepare_Inr)
qed

lemma dom_hammerBias:
  "dom (Bias (hammerBias fl)) = set entrypoints"
  "dom (InvalidChance (hammerBias fl)) = set entrypoints"
  by (auto simp: hammerBias_def entrypoints_def)

lemma startup_noTestData:
  "testDir fl0 = [] \<Longrightarrow> startup env fl0 = Inr (cfg, fl, loc) \<Longrightarrow>
   fl = fl0\<lparr>addChainBias := 0, addPreChainBias := 0\<rparr>"
  by (auto simp: startup_def testData_def split: if_splits sum.splits prod.splits)

lemma launched_startup:
  "h \<in> set (launched (main env fl0)) \<Longrightarrow> \<exists>cfg fl loc. startup env fl0 = Inr (cfg, fl, loc)"
  by (cases "startup env fl0") (auto simp: main_startup_Inl)

text \<open>
  C7: all eight operation kinds, and no others, are keys of the weight map and of the
  invalid-chance map, whatever the flags. With an empty \<^verbatim>\<open>testdata_dir\<close> the test
  data step yields no chain and no signer and zeroes the two add weights, and the weight
  map built from the flags it leaves has add-chain and add-pre-chain as keys with value 0;
  so has the table of every worker launched.
\<close>

theorem bias_table_complete:
  "distinct entrypoints \<and> length entrypoints = 8
   \<and> dom (Bias (hammerBias fl)) = set entrypoints
   \<and> dom (InvalidChance (hammerBias fl)) = set entrypoints
   \<and> (testDir fl0 = [] \<longrightarrow>
        testData env fl0 = Inr ([], None, fl0\<lparr>addChainBias := 0, addPreChainBias := 0\<rparr>)
        \<and> Bias (hammerBias (fl0\<lparr>addChainBias := 0, addPreChainBias := 0\<rparr>)) AddChainName = Some 0
        \<and> Bias (hammerBias (fl0\<lparr>addChainBias := 0, addPreChainBias := 0\<rparr>)) AddPreChainName = Some 0)
   \<and> (\<forall>h \<in> set (launched (main env fl0)).
         dom (Bias (EPBias h)) = set entrypoints
         \<and> dom (InvalidChance (EPBias h)) = set entrypoints
         \<and> (testDir fl0 = [] \<longrightarrow>
              Bias (EPBias h) AddChainName = Some 0 \<and> Bias (EPBias h) AddPreChainName = Some 0))"
proof -
  have a: "distinct entrypoints \<and> length entrypoints = 8"
    by (simp add: entrypoints_def)
  have b: "testDir fl0 = [] \<longrightarrow>
        testData env fl0 = Inr ([], None, fl0\<lparr>addChainBias := 0, addPreChainBias := 0\<rparr>)
        \<and> Bias (hammerBias (fl0\<lparr>addChainBias := 0, addPreChainBias := 0\<rparr>)) AddChainName = Some 0
        \<and> Bias (hammerBias (fl0\<lparr>addChainBias := 0, addPreChainBias := 0\<rparr>)) AddPreChainName = Some 0"
    by (simp add: testData_def hammerBias_def)
  have c: "dom (Bias (EPBias h)) = set entrypoints
         \<and> dom (InvalidChance (EPBias h)) = set entrypoints
         \<and> (testDir fl0 = [] \<longrightarrow>
              Bias (EPBias h) AddChainName = Some 0 \<and> Bias (EPBias h) AddPreChainName = Some 0)"
    if h: "h \<in> set (launched (main env fl0))" for h
  proof -
    from launched_startup [OF h] obtain cfg fl1 loc
      where s: "startup env fl0 = Inr (cfg, fl1, loc)" by blast
    have e: "EPBias h = hammerBias fl1" by (rule EPBias_main [OF s h])
    have "testDir fl0 = [] \<longrightarrow>
              Bias (EPBias h) AddChainName = Some 0 \<and> Bias (EPBias h) AddPreChainName = Some 0"
    proof
      assume "testDir fl0 = []"
      then have "fl1 = fl0\<lparr>addChainBias := 0, addPreChainBias := 0\<rparr>"
        using s by (rule startup_noTestData)
      then show "Bias (EPBias h) AddChainName = Some 0 \<and> Bias (EPBias h) AddPreChainName = Some 0"
        by (simp add: e hammerBias_def)
    qed
    then show ?thesis by (simp add: e dom_hammerBias)
  qed
  show ?thesis using a b c by (simp add: dom_hammerBias)
qed

text \<open>A run without test data on one log: the weights the worker is handed.\<close>

theorem bias_table_complete_witness:
  "testDir flagsNoTestData = []
   \<and> map (\<lambda>h. (Bias (EPBias h) AddChainName, Bias (EPBias h) AddPreChainName,
                  Bias (EPBias h) GetSTHName))
        (launched (main (envOf [logPlain]) flagsNoTestData)) = [(Some 0, Some 0, Some 2)]"
proof -
  have l: "map (\<lambda>h. Bias (EPBias h) GetSTHName)
        (launched (main (envOf [logPlain]) flagsNoTestData)) = [Some 2]"
    by code_simp
  have t: "testDir flagsNoTestData = []"
    by (simp add: flagsNoTestData_def)
  from l obtain h where h: "launched (main (envOf [logPlain]) flagsNoTestData) = [h]"
    by auto
  show ?thesis
    using bias_table_complete [of defaultFlags flagsNoTestData "envOf [logPlain]"] l t h
    by simp
qed

subsection \<open>The rate limiter (C8)\<close>

lemma startup_limit: "startup env fl0 = Inr (cfg, fl, loc) \<Longrightarrow> limit fl = limit fl0"
  by (auto simp: startup_def testData_def split: if_splits sum.splits prod.splits)

text \<open>
  C8: \<^verbatim>\<open>newLimiter\<close> returns nil for the rate 0, which is the default of the
  \<^verbatim>\<open>rate_limit\<close> flag, and a limiter built from the rate for every positive rate;
  every worker launched is handed \<^verbatim>\<open>newLimiter\<close> of the flag's value.
\<close>

theorem newLimiter_rate:
  "newLimiter 0 = None
   \<and> limit defaultFlags = 0
   \<and> (0 < rate \<longrightarrow> newLimiter rate = Some (NewLimiter rate))
   \<and> (\<forall>h \<in> set (launched (main env fl0)). Limiter h = newLimiter (limit fl0))"
proof -
  have "Limiter h = newLimiter (limit fl0)" if h: "h \<in> set (launched (main env fl0))" for h
  proof -
    from launched_startup [OF h] obtain cfg fl loc
      where s: "startup env fl0 = Inr (cfg, fl, loc)" by blast
    from h obtain j c where "prepare env fl loc j c = Inr h"
      using launchWorkers_member [of h env fl loc 0 cfg] by (auto simp: launched_main [OF s])
    then show ?thesis using startup_limit [OF s] by (simp add: prepare_Inr)
  qed
  then show ?thesis by (simp add: newLimiter_def defaultFlags_def)
qed

text \<open>Runs with \<^verbatim>\<open>rate_limit\<close> 50 on two logs and with the default on one.\<close>

theorem newLimiter_rate_witness:
  "(0::int) < 50 \<and> newLimiter 50 = Some (NewLimiter 50)
   \<and> map Limiter (launched (main (envOf [logPlain, logShard]) flagsLimited))
       = [Some (NewLimiter 50), Some (NewLimiter 50)]
   \<and> map Limiter (launched (main (envOf [logPlain]) flagsBase)) = [None]"
proof -
  have l: "map LogCfg (launched (main (envOf [logPlain, logShard]) flagsLimited)) = [logPlain, logShard]"
    "map LogCfg (launched (main (envOf [logPlain]) flagsBase)) = [logPlain]"
    by code_simp+
  from l(1) obtain h1 h2 where h: "launched (main (envOf [logPlain, logShard]) flagsLimited) = [h1, h2]"
    by auto
  from l(2) obtain h3 where h': "launched (main (envOf [logPlain]) flagsBase) = [h3]"
    by auto
  have f: "limit flagsLimited = 50" "limit flagsBase = 0"
    by (simp_all add: flagsLimited_def flagsBase_def defaultFlags_def)
  show ?thesis
    using newLimiter_rate [of 50 "envOf [logPlain, logShard]" flagsLimited]
      newLimiter_rate [of 50 "envOf [logPlain]" flagsBase] h h' f
    by simp
qed

subsection \<open>How a run can end in a configuration error\<close>

lemma status_main_configFatal:
  assumes "status (main env fl0) = Exited f" "configFatal f"
  shows "startup env fl0 = Inl f
         \<or> (\<exists>cfg fl loc. startup env fl0 = Inr (cfg, fl, loc)
               \<and> snd (launchWorkers env fl loc 0 cfg) = Some f)"
proof (cases "startup env fl0")
  case (Inl g)
  then show ?thesis using assms(1) by (simp add: main_startup_Inl)
next
  case (Inr x)
  then obtain cfg fl loc where s: "startup env fl0 = Inr (cfg, fl, loc)"
    by (cases x) auto
  show ?thesis
  proof (cases "snd (launchWorkers env fl loc 0 cfg)")
    case (Some g)
    then show ?thesis using s assms(1) by (simp add: status_main_stop)
  next
    case None
    show ?thesis
    proof (cases "joinWorkers env (fst (launchWorkers env fl loc 0 cfg))")
      case None
      then show ?thesis
        using s assms(1) \<open>snd (launchWorkers env fl loc 0 cfg) = None\<close>
        by (simp add: status_main_blocked)
    next
      case (Some rs)
      have "status (main env fl0) = snd (aggregate (length cfg) (channelOrder env rs))"
        using status_main_joined [OF s \<open>snd (launchWorkers env fl loc 0 cfg) = None\<close> Some]
        by (metis snd_conv)
      then show ?thesis
        using assms aggregate_status [of "length cfg" "channelOrder env rs"] by auto
    qed
  qed
qed

lemma startup_cfg:
  "startup env fl0 = Inr (cfg, fl, loc) \<Longrightarrow> LogConfigFromFile env (logConfig fl0) = Inr cfg"
  by (auto simp: startup_def split: if_splits sum.splits prod.splits)

lemma startup_override:
  "startup env fl0 = Inr (cfg, fl, loc) \<Longrightarrow>
   parseLeafNotAfter env fl0 = Inr (notAfterOverride loc)"
  by (auto simp: startup_def testData_def parseLeafNotAfter_def
      split: if_splits sum.splits prod.splits)

lemma prepare_Inl_notAfter:
  "prepare env fl loc i c = Inl (DetermineNotAfterFailed p e) \<Longrightarrow>
   logNotAfter env (notAfterOverride loc) i c = Inl (DetermineNotAfterFailed p e)"
  by (auto simp: prepare_def Let_def split: sum.splits)

lemma logNotAfter_Inl:
  "logNotAfter env ov i c = Inl (DetermineNotAfterFailed p e) \<Longrightarrow>
   IsZero ov \<and> p = Prefix c \<and> notAfterForLog (Now env i) c = Inl e"
  by (auto simp: logNotAfter_def split: if_splits sum.splits)

subsection \<open>The \<^verbatim>\<open>leaf_not_after\<close> override (C5, C10)\<close>

lemma logNotAfter_override: "\<not> IsZero t \<Longrightarrow> logNotAfter env t i c = Inr t"
  by (simp add: logNotAfter_def)

lemma parseLeafNotAfter_supplied:
  "leafNotAfter fl0 \<noteq> [] \<Longrightarrow> timeParse env (leafNotAfter fl0) = Inr t \<Longrightarrow>
   parseLeafNotAfter env fl0 = Inr t"
  by (simp add: parseLeafNotAfter_def)

lemma launched_prepare:
  assumes "startup env fl0 = Inr (cfg, fl, loc)" "i < length (launched (main env fl0))"
  shows "prepare env fl loc i (cfg ! i) = Inr (launched (main env fl0) ! i)"
  using assms launchWorkers_nth [of i env fl loc 0 cfg] by (simp add: launched_main)

text \<open>
  C5, as stated, fails when the override supplied is \<^verbatim>\<open>0001-01-01T00:00:00Z\<close>: it
  parses to the zero time, and the worker of the log \<open>c\<close> is handed the midpoint of the
  log's shard, which is what \<^verbatim>\<open>notAfterForLog\<close> returns for it, not the override.
\<close>

theorem override_verbatim_counterexample:
  "leafNotAfter flagsZeroOverride = ''0001-01-01T00:00:00Z''
   \<and> timeParse (envOf [logShard]) (leafNotAfter flagsZeroOverride) = Inr \<lparr>sec = 0, nsec = 0\<rparr>
   \<and> map (genNotAfter \<circ> ChainGenerator) (launched (main (envOf [logShard]) flagsZeroOverride))
       = [\<lparr>sec = 63650379600, nsec = 0\<rparr>]
   \<and> notAfterForLog clock2017 logShard = Inr \<lparr>sec = 63650379600, nsec = 0\<rparr>"
  by code_simp

text \<open>
  C5, amended: whenever a leaf-not-after override is supplied on the command line and
  parses to a time other than the zero time, every worker launched is handed a chain
  generator with exactly that time as \<^verbatim>\<open>notAfter\<close>; the \<^verbatim>\<open>notAfter\<close> step of the
  loop yields it for every log and every clock reading, whatever the log's bounds, and the
  run never ends in the error of \<^verbatim>\<open>notAfterForLog\<close>.
\<close>

theorem override_verbatim:
  assumes "leafNotAfter fl0 \<noteq> []" and "timeParse env (leafNotAfter fl0) = Inr t"
    and "\<not> IsZero t"
  shows "(\<forall>h \<in> set (launched (main env fl0)). genNotAfter (ChainGenerator h) = t)
         \<and> (\<forall>i c. logNotAfter env t i c = Inr t)
         \<and> (\<forall>p e. status (main env fl0) \<noteq> Exited (DetermineNotAfterFailed p e))"
proof -
  have ov: "notAfterOverride loc = t" if "startup env fl0 = Inr (cfg, fl, loc)" for cfg fl loc
    using startup_override [OF that] parseLeafNotAfter_supplied [OF assms(1,2)] by simp
  have a: "genNotAfter (ChainGenerator h) = t" if h: "h \<in> set (launched (main env fl0))" for h
  proof -
    from launched_startup [OF h] obtain cfg fl loc
      where s: "startup env fl0 = Inr (cfg, fl, loc)" by blast
    from h obtain j c where "prepare env fl loc j c = Inr h"
      using launchWorkers_member [of h env fl loc 0 cfg] by (auto simp: launched_main [OF s])
    then have "logNotAfter env t j c = Inr (genNotAfter (ChainGenerator h))"
      using prepare_Inr(4) ov [OF s] by metis
    then show ?thesis using assms(3) by (simp add: logNotAfter_override)
  qed
  have b: "status (main env fl0) \<noteq> Exited (DetermineNotAfterFailed p e)" for p e
  proof
    assume st: "status (main env fl0) = Exited (DetermineNotAfterFailed p e)"
    from status_main_configFatal [OF st] show False
    proof
      assume "startup env fl0 = Inl (DetermineNotAfterFailed p e)"
      then show False using startup_Inl by fastforce
    next
      assume "\<exists>cfg fl loc. startup env fl0 = Inr (cfg, fl, loc)
               \<and> snd (launchWorkers env fl loc 0 cfg) = Some (DetermineNotAfterFailed p e)"
      then obtain cfg fl loc where s: "startup env fl0 = Inr (cfg, fl, loc)"
        and r: "snd (launchWorkers env fl loc 0 cfg) = Some (DetermineNotAfterFailed p e)"
        by blast
      from launchWorkers_stop [OF r] obtain k
        where "prepare env fl loc k (cfg ! k) = Inl (DetermineNotAfterFailed p e)" by auto
      then have "logNotAfter env t k (cfg ! k) = Inl (DetermineNotAfterFailed p e)"
        using prepare_Inl_notAfter ov [OF s] by metis
      then show False using assms(3) by (simp add: logNotAfter_override)
    qed simp
  qed
  show ?thesis using a b assms(3) by (simp add: logNotAfter_override)
qed

text \<open>
  With the override \<^verbatim>\<open>2017-11-26T12:29:19Z\<close>, a sharded log and a log with a
  malformed bound are both handed the override.
\<close>

theorem override_verbatim_witness:
  "leafNotAfter flagsOverride \<noteq> []
   \<and> timeParse (envOf [logShard, logMalformed]) (leafNotAfter flagsOverride) = Inr clock2017
   \<and> \<not> IsZero clock2017
   \<and> map (genNotAfter \<circ> ChainGenerator)
        (launched (main (envOf [logShard, logMalformed]) flagsOverride)) = [clock2017, clock2017]"
proof -
  let ?env = "envOf [logShard, logMalformed]"
  have a: "leafNotAfter flagsOverride \<noteq> []"
    by (simp add: flagsOverride_def)
  have b: "timeParse ?env (leafNotAfter flagsOverride) = Inr clock2017"
    by code_simp
  have c: "\<not> IsZero clock2017"
    by code_simp
  have l: "map LogCfg (launched (main ?env flagsOverride)) = [logShard, logMalformed]"
    by code_simp
  from l obtain h1 h2 where h: "launched (main ?env flagsOverride) = [h1, h2]"
    by auto
  show ?thesis
    using override_verbatim [OF a b c] a b c h by simp
qed

lemma IsZero_zeroTime: "IsZero t \<Longrightarrow> t = zeroTime"
  by (cases t) (simp add: IsZero_def zeroTime_def)

lemma prepare_leafNotAfter: "prepare env (fl\<lparr>leafNotAfter := s\<rparr>) loc i c = prepare env fl loc i c"
  by (simp add: prepare_def Let_def split: sum.splits)

lemma launchWorkers_leafNotAfter:
  "launchWorkers env (fl\<lparr>leafNotAfter := s\<rparr>) loc i cs = launchWorkers env fl loc i cs"
proof (induction cs arbitrary: i)
  case Nil
  show ?case by simp
next
  case (Cons c cs)
  show ?case
    by (cases "prepare env fl loc i c") (simp_all add: prepare_leafNotAfter Cons)
qed

lemma fleet_leafNotAfter: "fleet env (fl\<lparr>leafNotAfter := s\<rparr>) loc cfg = fleet env fl loc cfg"
  by (simp add: fleet_def launchWorkers_leafNotAfter)

lemma startup_zero_override:
  assumes "leafNotAfter fl0 \<noteq> []" and "timeParse env (leafNotAfter fl0) = Inr t" and "IsZero t"
  shows "startup env (fl0\<lparr>leafNotAfter := []\<rparr>)
           = map_sum id (\<lambda>(cfg, fl, loc). (cfg, fl\<lparr>leafNotAfter := []\<rparr>, loc)) (startup env fl0)"
  using assms IsZero_zeroTime [OF assms(3)]
  by (auto simp: startup_def testData_def parseLeafNotAfter_def hammerBias_def metricFactory_def
      split: sum.splits)

text \<open>
  C10: if the override supplied parses to the zero time, the run is the run of the same
  command line without the override; the \<^verbatim>\<open>notAfter\<close> step of the loop is
  \<^verbatim>\<open>notAfterForLog\<close> for every log, with its error made fatal, and every worker launched
  is handed the time \<^verbatim>\<open>notAfterForLog\<close> returned for its log.
\<close>

theorem zero_override_absent:
  assumes "leafNotAfter fl0 \<noteq> []" and "timeParse env (leafNotAfter fl0) = Inr t" and "IsZero t"
  shows "main env fl0 = main env (fl0\<lparr>leafNotAfter := []\<rparr>)
         \<and> (\<forall>i < length (launched (main env fl0)).
               notAfterForLog (Now env i) (LogCfg (launched (main env fl0) ! i))
                 = Inr (genNotAfter (ChainGenerator (launched (main env fl0) ! i))))
         \<and> (\<forall>i c. logNotAfter env t i c
               = (case notAfterForLog (Now env i) c of
                    Inl e \<Rightarrow> Inl (DetermineNotAfterFailed (Prefix c) e)
                  | Inr x \<Rightarrow> Inr x))"
proof -
  have a: "main env fl0 = main env (fl0\<lparr>leafNotAfter := []\<rparr>)"
    by (cases "startup env fl0")
      (auto simp: main_def Let_def chooseSeed_def startup_zero_override [OF assms]
        fleet_leafNotAfter)
  have c: "logNotAfter env t i c
               = (case notAfterForLog (Now env i) c of
                    Inl e \<Rightarrow> Inl (DetermineNotAfterFailed (Prefix c) e)
                  | Inr x \<Rightarrow> Inr x)" for i c
    using assms(3) by (simp add: logNotAfter_def)
  have b: "notAfterForLog (Now env i) (LogCfg (launched (main env fl0) ! i))
                 = Inr (genNotAfter (ChainGenerator (launched (main env fl0) ! i)))"
    if i: "i < length (launched (main env fl0))" for i
  proof -
    from i have "launched (main env fl0) ! i \<in> set (launched (main env fl0))" by simp
    from launched_startup [OF this] obtain cfg fl loc
      where s: "startup env fl0 = Inr (cfg, fl, loc)" by blast
    have ov: "notAfterOverride loc = t"
      using startup_override [OF s] parseLeafNotAfter_supplied [OF assms(1,2)] by simp
    let ?h = "launched (main env fl0) ! i"
    have p: "prepare env fl loc i (cfg ! i) = Inr ?h" by (rule launched_prepare [OF s i])
    have "LogCfg ?h = cfg ! i" by (rule prepare_Inr(1) [OF p])
    moreover have "logNotAfter env t i (cfg ! i) = Inr (genNotAfter (ChainGenerator ?h))"
      using prepare_Inr(4) [OF p] ov by simp
    ultimately show ?thesis by (simp add: c split: sum.splits)
  qed
  show ?thesis using a b c by blast
qed

text \<open>
  With the override \<^verbatim>\<open>0001-01-01T00:00:00Z\<close>: a log with a start bound only is handed
  the day after it, a log with a limit bound only the hour before it.
\<close>

theorem zero_override_absent_witness:
  "leafNotAfter flagsZeroOverride \<noteq> []
   \<and> timeParse (envOf [logStartOnly, logLimitOnly]) (leafNotAfter flagsZeroOverride) = Inr zeroTime
   \<and> IsZero zeroTime
   \<and> main (envOf [logStartOnly, logLimitOnly]) flagsZeroOverride
       = main (envOf [logStartOnly, logLimitOnly]) (flagsZeroOverride\<lparr>leafNotAfter := []\<rparr>)
   \<and> map (genNotAfter \<circ> ChainGenerator)
        (launched (main (envOf [logStartOnly, logLimitOnly]) flagsZeroOverride))
       = [\<lparr>sec = 63650448000, nsec = 0\<rparr>, \<lparr>sec = 63650358000, nsec = 0\<rparr>]"
proof -
  let ?env = "envOf [logStartOnly, logLimitOnly]"
  have a: "leafNotAfter flagsZeroOverride \<noteq> []"
    by (simp add: flagsZeroOverride_def)
  have b: "timeParse ?env (leafNotAfter flagsZeroOverride) = Inr zeroTime"
    by code_simp
  have c: "IsZero zeroTime"
    by (simp add: IsZero_def zeroTime_def)
  have l: "map LogCfg (launched (main ?env flagsZeroOverride)) = [logStartOnly, logLimitOnly]"
    by code_simp
  from l obtain h1 h2 where h: "launched (main ?env flagsZeroOverride) = [h1, h2]"
    "LogCfg h1 = logStartOnly" "LogCfg h2 = logLimitOnly"
    by auto
  have n: "notAfterForLog clock2017 logStartOnly = Inr \<lparr>sec = 63650448000, nsec = 0\<rparr>"
    "notAfterForLog clock2017 logLimitOnly = Inr \<lparr>sec = 63650358000, nsec = 0\<rparr>"
    by code_simp+
  have e: "Now ?env = (\<lambda>i. clock2017)"
    by (simp add: envOf_def)
  have q: "notAfterForLog clock2017 (LogCfg ([h1, h2] ! i))
          = Inr (genNotAfter (ChainGenerator ([h1, h2] ! i)))" if "i < 2" for i
    using zero_override_absent [OF a b c] h(1) e that by simp
  have "notAfterForLog clock2017 (LogCfg h1) = Inr (genNotAfter (ChainGenerator h1))"
    "notAfterForLog clock2017 (LogCfg h2) = Inr (genNotAfter (ChainGenerator h2))"
    using q [of 0] q [of 1] by simp_all
  then show ?thesis
    using zero_override_absent [OF a b c] a b c h n by simp
qed

subsection \<open>An all-zero bias table (C3)\<close>

lemma prepare_weights:
  "prepare env (weights w fl) (loc\<lparr>bias := b\<rparr>) i c
     = map_sum id (EPBias_update (\<lambda>_. b)) (prepare env fl loc i c)"
  by (simp add: prepare_def weights_def Let_def split: sum.splits)

lemma launchWorkers_weights:
  "launchWorkers env (weights w fl) (loc\<lparr>bias := b\<rparr>) i cs
     = (map (EPBias_update (\<lambda>_. b)) (fst (launchWorkers env fl loc i cs)),
        snd (launchWorkers env fl loc i cs))"
proof (induction cs arbitrary: i)
  case Nil
  show ?case by simp
next
  case (Cons c cs)
  show ?case
    by (cases "prepare env fl loc i c")
      (simp_all add: prepare_weights Cons split: prod.splits)
qed

text \<open>The weights that reach the table: the two add weights are zeroed without test data.\<close>

lemma startup_weights:
  "startup env (weights w fl0)
     = map_sum id
         (\<lambda>(cfg, fl, loc).
            (cfg,
             weights (if testDir fl0 = [] then w\<lparr>addChainBias := 0, addPreChainBias := 0\<rparr> else w) fl,
             loc\<lparr>bias := hammerBias (weights
                 (if testDir fl0 = [] then w\<lparr>addChainBias := 0, addPreChainBias := 0\<rparr> else w) fl)\<rparr>))
         (startup env fl0)"
  by (cases fl0, cases w)
    (auto simp: startup_def testData_def parseLeafNotAfter_def weights_def metricFactory_def
      split: sum.splits)

lemma allZeroBias_hammerBias:
  "allZeroBias (hammerBias fl) \<longleftrightarrow>
     addChainBias fl = 0 \<and> addPreChainBias fl = 0 \<and> getSTHBias fl = 0
     \<and> getSTHConsistencyBias fl = 0 \<and> getProofByHashBias fl = 0 \<and> getEntriesBias fl = 0
     \<and> getRootsBias fl = 0 \<and> getEntryAndProofBias fl = 0"
  by (simp add: allZeroBias_def hammerBias_def entrypoints_def)

lemma startup_allZero:
  "allZeroBias (hammerBias fl0) \<Longrightarrow> startup env fl0 = Inr (cfg, fl, loc) \<Longrightarrow>
   allZeroBias (hammerBias fl)"
  by (auto simp: allZeroBias_hammerBias startup_def testData_def split: if_splits sum.splits)

lemma launched_weights:
  "map LogCfg (launched (main env (weights w fl0))) = map LogCfg (launched (main env fl0))"
proof (cases "startup env fl0")
  case (Inl f)
  then have "startup env (weights w fl0) = Inl f" by (simp add: startup_weights)
  then show ?thesis using Inl by (simp add: main_startup_Inl)
next
  case (Inr x)
  then obtain cfg fl loc where s: "startup env fl0 = Inr (cfg, fl, loc)" by (cases x) auto
  let ?w = "if testDir fl0 = [] then w\<lparr>addChainBias := 0, addPreChainBias := 0\<rparr> else w"
  have "startup env (weights w fl0)
          = Inr (cfg, weights ?w fl, loc\<lparr>bias := hammerBias (weights ?w fl)\<rparr>)"
    using s by (simp add: startup_weights)
  then show ?thesis
    by (simp add: launched_main [OF s] launched_main launchWorkers_weights comp_def)
qed

lemma status_weights:
  assumes "configFatal f"
  shows "status (main env (weights w fl0)) = Exited f \<longleftrightarrow> status (main env fl0) = Exited f"
proof -
  have imp: "status (main env (weights w' fl1)) = Exited f"
    if st: "status (main env fl1) = Exited f" for w' fl1
    using status_main_configFatal [OF st assms]
  proof
    assume "startup env fl1 = Inl f"
    then have "startup env (weights w' fl1) = Inl f" by (simp add: startup_weights)
    then show ?thesis by (simp add: main_startup_Inl)
  next
    assume "\<exists>cfg fl loc. startup env fl1 = Inr (cfg, fl, loc)
               \<and> snd (launchWorkers env fl loc 0 cfg) = Some f"
    then obtain cfg fl loc where s: "startup env fl1 = Inr (cfg, fl, loc)"
      and r: "snd (launchWorkers env fl loc 0 cfg) = Some f" by blast
    let ?w = "if testDir fl1 = [] then w'\<lparr>addChainBias := 0, addPreChainBias := 0\<rparr> else w'"
    have s': "startup env (weights w' fl1)
          = Inr (cfg, weights ?w fl, loc\<lparr>bias := hammerBias (weights ?w fl)\<rparr>)"
      using s by (simp add: startup_weights)
    have "snd (launchWorkers env (weights ?w fl) (loc\<lparr>bias := hammerBias (weights ?w fl)\<rparr>) 0 cfg)
          = Some f"
      using r by (simp add: launchWorkers_weights)
    then show ?thesis using status_main_stop [OF s'] by simp
  qed
  have undo: "weights fl0 (weights w fl0) = fl0"
    by (simp add: weights_def)
  show ?thesis
    using imp [of fl0 w] imp [of "weights w fl0" fl0] by (auto simp: undo)
qed

text \<open>
  C3, as stated, fails on a command line with all eight weights zero and one log:
  \<^verbatim>\<open>main\<close> raises no error and launches the worker of the log with the all-zero
  table.
\<close>

theorem all_zero_bias_counterexample:
  "allZeroBias (hammerBias flagsAllZero)
   \<and> map (\<lambda>h. (Prefix (LogCfg h), allZeroBias (EPBias h)))
        (launched (main (envOf [logPlain]) flagsAllZero)) = [(''a'', True)]"
  by code_simp

text \<open>
  C3, amended: \<^verbatim>\<open>main\<close> does not inspect the weights. When all eight are zero, every
  worker launched is handed the all-zero table; the logs for which a worker is launched,
  and the configuration error the run ends in, if any, are those of the same command line
  with any other weights \<open>w\<close>. What a worker does with an all-zero table is decided in
  \<^verbatim>\<open>HammerCTLog\<close>, after the launch.
\<close>

theorem all_zero_bias_not_checked:
  assumes "allZeroBias (hammerBias fl0)"
  shows "(\<forall>h \<in> set (launched (main env fl0)). allZeroBias (EPBias h))
         \<and> map LogCfg (launched (main env fl0)) = map LogCfg (launched (main env (weights w fl0)))
         \<and> (\<forall>f. configFatal f \<longrightarrow>
               (status (main env fl0) = Exited f
                  \<longleftrightarrow> status (main env (weights w fl0)) = Exited f))"
proof -
  have "allZeroBias (EPBias h)" if h: "h \<in> set (launched (main env fl0))" for h
  proof -
    from launched_startup [OF h] obtain cfg fl loc
      where s: "startup env fl0 = Inr (cfg, fl, loc)" by blast
    show ?thesis
      using EPBias_main [OF s h] startup_allZero [OF assms s] by simp
  qed
  then show ?thesis
    by (simp add: launched_weights status_weights)
qed

text \<open>Two logs and all weights zero: both workers are launched with the all-zero table.\<close>

theorem all_zero_bias_not_checked_witness:
  "allZeroBias (hammerBias flagsAllZero)
   \<and> map LogCfg (launched (main (envOf [logPlain, logShard]) flagsAllZero)) = [logPlain, logShard]
   \<and> map (allZeroBias \<circ> EPBias) (launched (main (envOf [logPlain, logShard]) flagsAllZero))
       = [True, True]"
proof -
  let ?env = "envOf [logPlain, logShard]"
  have z: "allZeroBias (hammerBias flagsAllZero)"
    by code_simp
  have w: "weights flagsBase flagsAllZero = flagsBase"
    by (simp add: weights_def flagsAllZero_def)
  have l: "map LogCfg (launched (main ?env flagsBase)) = [logPlain, logShard]"
    by code_simp
  have m: "map LogCfg (launched (main ?env flagsAllZero)) = [logPlain, logShard]"
    using all_zero_bias_not_checked [OF z, of ?env flagsBase] l by (simp add: w)
  then obtain h1 h2 where h: "launched (main ?env flagsAllZero) = [h1, h2]"
    by auto
  show ?thesis
    using all_zero_bias_not_checked [OF z, of ?env flagsBase] z m h by simp
qed

subsection \<open>Facts about the channel and the join\<close>

lemma mset_channelOrder: "mset (channelOrder env rs) = mset rs"
proof -
  let ?zs = "zip (map (finishTime env) [0..<length rs]) rs"
  have a: "mset (map snd (sort_key fst ?zs)) = mset (map snd ?zs)"
    by (simp only: mset_map mset_sort)
  have b: "map snd ?zs = rs"
    by (simp add: map_snd_zip)
  show ?thesis by (simp only: channelOrder_def a b)
qed

lemma set_channelOrder: "set (channelOrder env rs) = set rs"
  using mset_channelOrder [of env rs] by (metis set_mset_mset)

lemma joinWorkers_None:
  "joinWorkers env hs = None \<longleftrightarrow> (\<exists>h \<in> set hs. HammerCTLog env h = NeverReturns)"
  by (induction hs) (auto simp: worker_def split: campaign.splits option.splits)

lemma joinWorkers_Some:
  "joinWorkers env hs = Some rs \<Longrightarrow> rs = map (resultOf env) hs"
  by (induction hs arbitrary: rs)
    (auto simp: worker_def resultOf_def split: campaign.splits option.splits)

lemma failed_resultOf: "failed (resultOf env h) \<longleftrightarrow> workerFailed env h"
  by (auto simp: failed_def resultOf_def workerFailed_def split: campaign.splits option.splits)

lemma prefix_resultOf: "prefix (resultOf env h) = Prefix (LogCfg h)"
  by (simp add: resultOf_def)

lemma filter_failed_resultOf:
  "filter failed (map (resultOf env) hs) = map (resultOf env) (filter (workerFailed env) hs)"
  by (induction hs) (simp_all add: failed_resultOf)

lemma aggregate_channel:
  "snd (aggregate n (channelOrder env rs))
     = (if filter failed rs = [] then Done
        else Exited (NonZeroErrorCount (length (filter failed rs))))"
    "mset (reportedPrefixes (fst (aggregate n (channelOrder env rs))))
     = mset (map prefix (filter failed rs))"
proof -
  have m: "mset (filter failed (channelOrder env rs)) = mset (filter failed rs)"
    by (simp add: mset_channelOrder)
  then have l: "length (filter failed (channelOrder env rs)) = length (filter failed rs)"
    by (metis size_mset)
  then have e: "filter failed (channelOrder env rs) = [] \<longleftrightarrow> filter failed rs = []"
    by (metis length_0_conv)
  show "snd (aggregate n (channelOrder env rs))
     = (if filter failed rs = [] then Done
        else Exited (NonZeroErrorCount (length (filter failed rs))))"
    using l e by (auto simp: aggregate_def countErrors_eq)
  have "reportedPrefixes (fst (aggregate n (channelOrder env rs)))
          = map prefix (filter failed (channelOrder env rs))"
    by (auto simp: aggregate_def countErrors_eq reportedPrefixes_append reportedPrefixes_failed)
  then show "mset (reportedPrefixes (fst (aggregate n (channelOrder env rs))))
     = mset (map prefix (filter failed rs))"
    using m by (metis mset_map)
qed


lemma status_main_Done:
  assumes "status (main env fl0) = Done \<or> status (main env fl0) = Exited (NonZeroErrorCount n)"
  shows "\<exists>cfg fl loc. startup env fl0 = Inr (cfg, fl, loc)
           \<and> snd (launchWorkers env fl loc 0 cfg) = None"
proof (cases "startup env fl0")
  case (Inl g)
  then show ?thesis using assms startup_Inl [OF Inl] by (auto simp: main_startup_Inl)
next
  case (Inr x)
  then obtain cfg fl loc where s: "startup env fl0 = Inr (cfg, fl, loc)"
    by (cases x) auto
  show ?thesis
  proof (cases "snd (launchWorkers env fl loc 0 cfg)")
    case (Some g)
    have "perLogFatal g"
      using launchWorkers_stop [OF Some] prepare_Inl by blast
    then show ?thesis using s assms status_main_stop [OF s Some] by auto
  next
    case None
    then show ?thesis using s by blast
  qed
qed

lemma workerFailed_iff:
  "workerFailed env h
     \<longleftrightarrow> HammerCTLog env h \<noteq> Returned None \<and> HammerCTLog env h \<noteq> NeverReturns"
proof (cases "HammerCTLog env h")
  case (Returned e)
  then show ?thesis by (cases e) (simp_all add: workerFailed_def)
next
  case NeverReturns
  then show ?thesis by (simp add: workerFailed_def)
qed

lemma main_joined:
  assumes s: "startup env fl0 = Inr (cfg, fl, loc)"
    and r: "snd (launchWorkers env fl loc 0 cfg) = None"
  shows "map LogCfg (launched (main env fl0)) = cfg
      \<and> (status (main env fl0) = Blocked
           \<longleftrightarrow> (\<exists>h \<in> set (launched (main env fl0)). HammerCTLog env h = NeverReturns))
      \<and> (status (main env fl0) = Done
           \<longleftrightarrow> (\<forall>h \<in> set (launched (main env fl0)). HammerCTLog env h = Returned None))
      \<and> (status (main env fl0)
           = Exited (NonZeroErrorCount (length (filter (workerFailed env) (launched (main env fl0)))))
           \<longleftrightarrow> (\<forall>h \<in> set (launched (main env fl0)). HammerCTLog env h \<noteq> NeverReturns)
                \<and> (\<exists>h \<in> set (launched (main env fl0)). workerFailed env h))
      \<and> ((\<forall>h \<in> set (launched (main env fl0)). HammerCTLog env h \<noteq> NeverReturns) \<longrightarrow>
           mset (reportedPrefixes (logged (main env fl0)))
             = mset (map (Prefix \<circ> LogCfg) (filter (workerFailed env) (launched (main env fl0)))))"
proof -
  let ?hs = "fst (launchWorkers env fl loc 0 cfg)"
  have l: "launched (main env fl0) = ?hs" by (rule launched_main [OF s])
  have c: "map LogCfg (launched (main env fl0)) = cfg"
    using launchWorkers_LogCfg [of env fl loc 0 cfg] launchWorkers_complete [OF r]
    by (simp add: l)
  have none: "\<not> (\<exists>h \<in> set ?hs. workerFailed env h)
              \<longleftrightarrow> (\<forall>h \<in> set ?hs. HammerCTLog env h = Returned None
                              \<or> HammerCTLog env h = NeverReturns)"
    by (auto simp: workerFailed_iff)
  have fe: "filter (workerFailed env) ?hs = [] \<longleftrightarrow> \<not> (\<exists>h \<in> set ?hs. workerFailed env h)"
    by (auto simp: filter_empty_conv)
  have "(status (main env fl0) = Blocked
           \<longleftrightarrow> (\<exists>h \<in> set (launched (main env fl0)). HammerCTLog env h = NeverReturns))
      \<and> (status (main env fl0) = Done
           \<longleftrightarrow> (\<forall>h \<in> set (launched (main env fl0)). HammerCTLog env h = Returned None))
      \<and> (status (main env fl0)
           = Exited (NonZeroErrorCount (length (filter (workerFailed env) (launched (main env fl0)))))
           \<longleftrightarrow> (\<forall>h \<in> set (launched (main env fl0)). HammerCTLog env h \<noteq> NeverReturns)
                \<and> (\<exists>h \<in> set (launched (main env fl0)). workerFailed env h))
      \<and> ((\<forall>h \<in> set (launched (main env fl0)). HammerCTLog env h \<noteq> NeverReturns) \<longrightarrow>
           mset (reportedPrefixes (logged (main env fl0)))
             = mset (map (Prefix \<circ> LogCfg) (filter (workerFailed env) (launched (main env fl0)))))"
  proof (cases "joinWorkers env ?hs")
    case None
    then have n: "\<exists>h \<in> set ?hs. HammerCTLog env h = NeverReturns"
      by (simp add: joinWorkers_None)
    have nd: "\<not> (\<forall>h \<in> set ?hs. HammerCTLog env h = Returned None)"
      using n by force
    have nn: "\<not> (\<forall>h \<in> set ?hs. HammerCTLog env h \<noteq> NeverReturns)"
      using n by force
    have b: "status (main env fl0) = Blocked"
      using status_main_blocked [OF s r None] by simp
    have b1: "status (main env fl0) \<noteq> Done"
      and b2: "status (main env fl0) \<noteq> Exited x" for x
      by (simp_all add: b)
    show ?thesis
      unfolding l using b b1 b2 n nd nn by blast
  next
    case (Some rs)
    then have nn: "\<forall>h \<in> set ?hs. HammerCTLog env h \<noteq> NeverReturns"
      using joinWorkers_None [of env ?hs] by auto
    have rs: "rs = map (resultOf env) ?hs" by (rule joinWorkers_Some [OF Some])
    have f: "filter failed rs = map (resultOf env) (filter (workerFailed env) ?hs)"
      by (simp add: rs filter_failed_resultOf)
    have a: "(logged (main env fl0), status (main env fl0))
               = aggregate (length cfg) (channelOrder env rs)"
      by (rule status_main_joined [OF s r Some])
    have st: "status (main env fl0)
               = (if filter (workerFailed env) ?hs = [] then Done
                  else Exited (NonZeroErrorCount (length (filter (workerFailed env) ?hs))))"
      using aggregate_channel(1) [of "length cfg" env rs] a [symmetric] by (simp add: f)
    have lg: "mset (reportedPrefixes (logged (main env fl0)))
               = mset (map (Prefix \<circ> LogCfg) (filter (workerFailed env) ?hs))"
      using aggregate_channel(2) [of "length cfg" env rs] a [symmetric]
      by (simp add: f prefix_resultOf comp_def)
    have d: "filter (workerFailed env) ?hs = []
               \<longleftrightarrow> (\<forall>h \<in> set ?hs. HammerCTLog env h = Returned None)"
      using fe none nn by auto
    show ?thesis
      unfolding l using st lg d nn fe by (cases "filter (workerFailed env) ?hs = []") auto
  qed
  with c show ?thesis by (rule conjI)
qed

subsection \<open>From the configuration to the exit\<close>

lemma startup_NoLogConfig: "logConfig fl0 = [] \<Longrightarrow> startup env fl0 = Inl NoLogConfig"
  by (simp add: startup_def)

lemma startup_ReadLogConfigFailed:
  "logConfig fl0 \<noteq> [] \<Longrightarrow> LogConfigFromFile env (logConfig fl0) = Inl e \<Longrightarrow>
   startup env fl0 = Inl (ReadLogConfigFailed e)"
  by (simp add: startup_def)

lemma startup_LoadCertificateFailed:
  "logConfig fl0 \<noteq> [] \<Longrightarrow> LogConfigFromFile env (logConfig fl0) = Inr cfg \<Longrightarrow>
   testDir fl0 \<noteq> [] \<Longrightarrow> GetChain env (testDir fl0) ''leaf01.chain'' = Inl e \<Longrightarrow>
   startup env fl0 = Inl (LoadCertificateFailed e)"
  by (simp add: startup_def testData_def)

lemma startup_RetrieveSignerFailed:
  "logConfig fl0 \<noteq> [] \<Longrightarrow> LogConfigFromFile env (logConfig fl0) = Inr cfg \<Longrightarrow>
   testDir fl0 \<noteq> [] \<Longrightarrow> GetChain env (testDir fl0) ''leaf01.chain'' = Inr ch \<Longrightarrow>
   MakeSigner env (testDir fl0) = Inl e \<Longrightarrow>
   startup env fl0 = Inl (RetrieveSignerFailed e)"
  by (simp add: startup_def testData_def)

lemma testData_leafNotAfter:
  "testData env fl0 = Inr (ch, sg, fl) \<Longrightarrow> leafNotAfter fl = leafNotAfter fl0"
  by (auto simp: testData_def split: if_splits sum.splits)

lemma startup_ParseLeafNotAfterFailed:
  "logConfig fl0 \<noteq> [] \<Longrightarrow> LogConfigFromFile env (logConfig fl0) = Inr cfg \<Longrightarrow>
   testData env fl0 = Inr (ch, sg, fl) \<Longrightarrow>
   leafNotAfter fl0 \<noteq> [] \<Longrightarrow> timeParse env (leafNotAfter fl0) = Inl e \<Longrightarrow>
   startup env fl0 = Inl (ParseLeafNotAfterFailed e)"
  using testData_leafNotAfter [of env fl0 ch sg fl]
  by (simp add: startup_def parseLeafNotAfter_def)

lemma prepare_fault: "prepare env fl loc i c = Inl f \<longleftrightarrow> logFault env fl loc i c = Some f"
  by (auto simp: prepare_def logFault_def logNotAfter_def NewRandomPool_def
      NewSyntheticChainGenerator_def Let_def split: sum.splits option.splits if_splits)

lemma prepare_no_fault:
  "(\<exists>h. prepare env fl loc i c = Inr h) \<longleftrightarrow> logFault env fl loc i c = None"
proof (cases "prepare env fl loc i c")
  case (Inl f)
  then show ?thesis using prepare_fault [of env fl loc i c f] by simp
next
  case (Inr h)
  have "logFault env fl loc i c \<noteq> Some f" for f
    using prepare_fault [of env fl loc i c f] Inr by simp
  then show ?thesis using Inr by (cases "logFault env fl loc i c") auto
qed

lemma launchWorkers_first_fault:
  assumes "k < length cs"
    and "\<forall>j<k. logFault env fl loc (i + j) (cs ! j) = None"
    and "logFault env fl loc (i + k) (cs ! k) = Some f"
  shows "snd (launchWorkers env fl loc i cs) = Some f
         \<and> length (fst (launchWorkers env fl loc i cs)) = k"
  using assms
proof (induction cs arbitrary: i k)
  case Nil
  then show ?case by simp
next
  case (Cons c cs)
  show ?case
  proof (cases k)
    case 0
    then have "prepare env fl loc i c = Inl f"
      using Cons.prems(3) by (simp add: prepare_fault)
    then show ?thesis using 0 by (simp add: launchWorkers_Inl del: launchWorkers.simps)
  next
    case (Suc m)
    have "logFault env fl loc i c = None"
      using Cons.prems(2) [rule_format, of 0] Suc by simp
    then obtain h where h: "prepare env fl loc i c = Inr h"
      using prepare_no_fault [of env fl loc i c] by auto
    have "m < length cs" using Cons.prems(1) Suc by simp
    moreover have "\<forall>j<m. logFault env fl loc (Suc i + j) (cs ! j) = None"
    proof (intro allI impI)
      fix j assume "j < m"
      then show "logFault env fl loc (Suc i + j) (cs ! j) = None"
        using Cons.prems(2) [rule_format, of "Suc j"] Suc by simp
    qed
    moreover have "logFault env fl loc (Suc i + m) (cs ! m) = Some f"
      using Cons.prems(3) Suc by simp
    ultimately have "snd (launchWorkers env fl loc (Suc i) cs) = Some f
         \<and> length (fst (launchWorkers env fl loc (Suc i) cs)) = m"
      by (rule Cons.IH)
    then show ?thesis
      using h Suc by (simp add: launchWorkers_Inr del: launchWorkers.simps)
  qed
qed

lemma launchWorkers_no_fault:
  assumes "\<forall>j<length cs. logFault env fl loc (i + j) (cs ! j) = None"
  shows "snd (launchWorkers env fl loc i cs) = None"
proof (cases "snd (launchWorkers env fl loc i cs)")
  case None
  then show ?thesis .
next
  case (Some f)
  from launchWorkers_stop [OF Some] assms show ?thesis
    by (auto simp: prepare_fault)
qed

lemma launchWorkers_faults:
  assumes "j < length (fst (launchWorkers env fl loc i cs))"
  shows "logFault env fl loc (i + j) (cs ! j) = None"
  using launchWorkers_nth [OF assms] prepare_no_fault by blast

subsection \<open>The verdict (C2)\<close>

text \<open>
  C2, as stated, fails in two ways. On three logs of which the campaign of \<open>A\<close>
  returns with an error and the campaign of \<open>C\<close> never returns, \<^verbatim>\<open>wg.Wait()\<close>
  keeps waiting for \<open>C\<close>: the process does not exit and the failure of \<open>A\<close> is not
  reported. On the two logs \<open>c\<close> and \<open>h\<close>, of which \<open>h\<close> has a malformed limit
  bound, the campaign of the only worker launched returns without an error, and the
  process ends in a fatal exit all the same.
\<close>

theorem main_verdict_counterexample:
  "map (HammerCTLog (envCampaigns logsABC [''A''] [''C'']))
       (launched (main (envCampaigns logsABC [''A''] [''C'']) flagsBase))
     = [Returned (Some ''boom''), Returned None, NeverReturns]
   \<and> status (main (envCampaigns logsABC [''A''] [''C'']) flagsBase) = Blocked
   \<and> logged (main (envCampaigns logsABC [''A''] [''C'']) flagsBase) = []
   \<and> map (HammerCTLog (envOf [logShard, logBadLimit]))
         (launched (main (envOf [logShard, logBadLimit]) flagsBase))
       = [Returned None]
   \<and> status (main (envOf [logShard, logBadLimit]) flagsBase)
       = Exited (DetermineNotAfterFailed ''h'' (ParseNotAfterLimit AfterYear10000))"
  by code_simp

text \<open>
  C2, amended. The verdict is produced at the join, after every worker has returned.
  \<^item> If the process ends in success, the campaign of every worker launched has returned
    without an error.
  \<^item> If it ends in the exit that reports an error count, the count is the number of
    workers whose campaign returned with an error, it is positive, and the
    \<^verbatim>\<open>failed with\<close> lines logged name the prefixes of exactly those workers' logs, one
    line for each.
  \<^item> In a run that passes every configuration check (the steps before the loop succeed and
    no log has a configuration error), one worker is launched per log, in the order of
    the configuration, and: the process waits for ever exactly when some campaign never
    returns; it ends in success exactly when every campaign returns without an error; it
    ends in the exit with the number of failed campaigns exactly when every campaign
    returns and at least one returns with an error; and whenever every campaign returns,
    the prefixes logged as failed are exactly those of the logs whose campaign returned
    with an error.
  The prefixes are compared as multisets: the lines appear in the order in which the
  results arrive on the channel.
\<close>

theorem main_verdict:
  "(status (main env fl0) = Done \<longrightarrow>
      (\<forall>h \<in> set (launched (main env fl0)). HammerCTLog env h = Returned None))
   \<and> (status (main env fl0) = Exited (NonZeroErrorCount n) \<longrightarrow>
        n = length (filter (workerFailed env) (launched (main env fl0))) \<and> 0 < n
        \<and> mset (reportedPrefixes (logged (main env fl0)))
            = mset (map (Prefix \<circ> LogCfg) (filter (workerFailed env) (launched (main env fl0)))))
   \<and> (startup env fl0 = Inr (cfg, fl, loc)
       \<and> (\<forall>j<length cfg. logFault env fl loc j (cfg ! j) = None) \<longrightarrow>
        map LogCfg (launched (main env fl0)) = cfg
        \<and> (status (main env fl0) = Blocked
             \<longleftrightarrow> (\<exists>h \<in> set (launched (main env fl0)). HammerCTLog env h = NeverReturns))
        \<and> (status (main env fl0) = Done
             \<longleftrightarrow> (\<forall>h \<in> set (launched (main env fl0)). HammerCTLog env h = Returned None))
        \<and> (status (main env fl0)
             = Exited (NonZeroErrorCount
                 (length (filter (workerFailed env) (launched (main env fl0)))))
             \<longleftrightarrow> (\<forall>h \<in> set (launched (main env fl0)). HammerCTLog env h \<noteq> NeverReturns)
                  \<and> (\<exists>h \<in> set (launched (main env fl0)). workerFailed env h))
        \<and> ((\<forall>h \<in> set (launched (main env fl0)). HammerCTLog env h \<noteq> NeverReturns) \<longrightarrow>
             mset (reportedPrefixes (logged (main env fl0)))
               = mset (map (Prefix \<circ> LogCfg)
                   (filter (workerFailed env) (launched (main env fl0))))))"
proof (intro conjI)
  show "status (main env fl0) = Done \<longrightarrow>
      (\<forall>h \<in> set (launched (main env fl0)). HammerCTLog env h = Returned None)"
  proof
  assume d: "status (main env fl0) = Done"
  then obtain cfg' fl' loc' where "startup env fl0 = Inr (cfg', fl', loc')"
    and "snd (launchWorkers env fl' loc' 0 cfg') = None"
    using status_main_Done [of env fl0 0] by blast
  from main_joined [OF this] d
  show "\<forall>h \<in> set (launched (main env fl0)). HammerCTLog env h = Returned None"
    by blast
  qed
next
  show "status (main env fl0) = Exited (NonZeroErrorCount n) \<longrightarrow>
        n = length (filter (workerFailed env) (launched (main env fl0))) \<and> 0 < n
        \<and> mset (reportedPrefixes (logged (main env fl0)))
            = mset (map (Prefix \<circ> LogCfg) (filter (workerFailed env) (launched (main env fl0))))"
  proof
  assume e: "status (main env fl0) = Exited (NonZeroErrorCount n)"
  then obtain cfg' fl' loc' where "startup env fl0 = Inr (cfg', fl', loc')"
    and "snd (launchWorkers env fl' loc' 0 cfg') = None"
    using status_main_Done [of env fl0 n] by blast
  note j = main_joined [OF this]
  let ?hs = "launched (main env fl0)"
  have nb: "\<forall>h \<in> set ?hs. HammerCTLog env h \<noteq> NeverReturns"
    using j e by auto
  have nd: "\<not> (\<forall>h \<in> set ?hs. HammerCTLog env h = Returned None)"
    using j e by auto
  then have f: "\<exists>h \<in> set ?hs. workerFailed env h"
    using nb by (auto simp: workerFailed_iff)
  then have "status (main env fl0) = Exited (NonZeroErrorCount (length (filter (workerFailed env) ?hs)))"
    using j nb by blast
  then have n: "n = length (filter (workerFailed env) ?hs)"
    using e by simp
  have "filter (workerFailed env) ?hs \<noteq> []"
    using f by (auto simp: filter_empty_conv)
  then have "0 < n" using n by simp
  then show "n = length (filter (workerFailed env) ?hs) \<and> 0 < n
        \<and> mset (reportedPrefixes (logged (main env fl0)))
            = mset (map (Prefix \<circ> LogCfg) (filter (workerFailed env) ?hs))"
    using n j nb by blast
  qed
next
  show "startup env fl0 = Inr (cfg, fl, loc)
       \<and> (\<forall>j<length cfg. logFault env fl loc j (cfg ! j) = None) \<longrightarrow>
        map LogCfg (launched (main env fl0)) = cfg
        \<and> (status (main env fl0) = Blocked
             \<longleftrightarrow> (\<exists>h \<in> set (launched (main env fl0)). HammerCTLog env h = NeverReturns))
        \<and> (status (main env fl0) = Done
             \<longleftrightarrow> (\<forall>h \<in> set (launched (main env fl0)). HammerCTLog env h = Returned None))
        \<and> (status (main env fl0)
             = Exited (NonZeroErrorCount
                 (length (filter (workerFailed env) (launched (main env fl0)))))
             \<longleftrightarrow> (\<forall>h \<in> set (launched (main env fl0)). HammerCTLog env h \<noteq> NeverReturns)
                  \<and> (\<exists>h \<in> set (launched (main env fl0)). workerFailed env h))
        \<and> ((\<forall>h \<in> set (launched (main env fl0)). HammerCTLog env h \<noteq> NeverReturns) \<longrightarrow>
             mset (reportedPrefixes (logged (main env fl0)))
               = mset (map (Prefix \<circ> LogCfg)
                   (filter (workerFailed env) (launched (main env fl0)))))"
  proof
  assume a: "startup env fl0 = Inr (cfg, fl, loc)
       \<and> (\<forall>j<length cfg. logFault env fl loc j (cfg ! j) = None)"
  then have "snd (launchWorkers env fl loc 0 cfg) = None"
    using launchWorkers_no_fault [of cfg env fl loc 0] by simp
  from main_joined [OF conjunct1 [OF a] this]
  show "map LogCfg (launched (main env fl0)) = cfg
        \<and> (status (main env fl0) = Blocked
             \<longleftrightarrow> (\<exists>h \<in> set (launched (main env fl0)). HammerCTLog env h = NeverReturns))
        \<and> (status (main env fl0) = Done
             \<longleftrightarrow> (\<forall>h \<in> set (launched (main env fl0)). HammerCTLog env h = Returned None))
        \<and> (status (main env fl0)
             = Exited (NonZeroErrorCount
                 (length (filter (workerFailed env) (launched (main env fl0)))))
             \<longleftrightarrow> (\<forall>h \<in> set (launched (main env fl0)). HammerCTLog env h \<noteq> NeverReturns)
                  \<and> (\<exists>h \<in> set (launched (main env fl0)). workerFailed env h))
        \<and> ((\<forall>h \<in> set (launched (main env fl0)). HammerCTLog env h \<noteq> NeverReturns) \<longrightarrow>
             mset (reportedPrefixes (logged (main env fl0)))
               = mset (map (Prefix \<circ> LogCfg)
                   (filter (workerFailed env) (launched (main env fl0)))))" .
  qed
qed


text \<open>The concrete runs on the logs \<open>A\<close>, \<open>B\<close> and \<open>C\<close>.\<close>

lemma startup_envCampaigns:
  "startup (envCampaigns cfg bad stuck) flagsBase = Inr (cfg, flagsBase, localsBase)"
  by (simp add: startup_def envCampaigns_def envOf_def flagsBase_def defaultFlags_def
      testData_def parseLeafNotAfter_def localsBase_def metricFactory_def)

lemma logFault_envCampaigns:
  "logFault (envCampaigns cfg bad stuck) flagsBase localsBase j (logPlain\<lparr>Prefix := p\<rparr>) = None"
  by (simp add: logFault_def envCampaigns_def envOf_def localsBase_def IsZero_def zeroTime_def
      notAfterForLog_def logPlain_def)

lemma logFault_logsABC:
  "\<forall>j<length logsABC.
     logFault (envCampaigns logsABC bad stuck) flagsBase localsBase j (logsABC ! j) = None"
proof (intro allI impI)
  fix j assume "j < length logsABC"
  then have "j = 0 \<or> j = 1 \<or> j = 2" by (auto simp: logsABC_def)
  then show "logFault (envCampaigns logsABC bad stuck) flagsBase localsBase j (logsABC ! j) = None"
    by (auto simp: logsABC_def logFault_envCampaigns)
qed

lemma launched_logsABC:
  assumes "map LogCfg hs = logsABC"
  shows "\<exists>a b c. hs = [a, b, c] \<and> Prefix (LogCfg a) = ''A'' \<and> Prefix (LogCfg b) = ''B''
           \<and> Prefix (LogCfg c) = ''C''"
  using assms by (auto simp: logsABC_def)

text \<open>
  Three logs, with the results arriving in the reverse of the launch order: when only the
  campaign of \<open>B\<close> fails, the process exits with the count 1 and reports \<open>B\<close>; when
  none fails, it ends in success; when the campaign of \<open>B\<close> never returns, it waits.
\<close>

theorem main_verdict_witness:
  "status (main (envCampaigns logsABC [''B''] []) flagsBase) = Exited (NonZeroErrorCount 1)
   \<and> mset (reportedPrefixes (logged (main (envCampaigns logsABC [''B''] []) flagsBase)))
       = {#''B''#}
   \<and> status (main (envCampaigns logsABC [] []) flagsBase) = Done
   \<and> status (main (envCampaigns logsABC [] [''B'']) flagsBase) = Blocked"
proof -
  have one: "status (main (envCampaigns logsABC [''B''] []) flagsBase)
               = Exited (NonZeroErrorCount 1)
             \<and> mset (reportedPrefixes (logged (main (envCampaigns logsABC [''B''] []) flagsBase)))
                 = {#''B''#}"
  proof -
    let ?env = "envCampaigns logsABC [''B''] []"
    note t = main_verdict [of ?env flagsBase 0 logsABC flagsBase localsBase,
        THEN conjunct2, THEN conjunct2, rule_format,
        OF conjI [OF startup_envCampaigns logFault_logsABC]]
    from t obtain a b c where h: "launched (main ?env flagsBase) = [a, b, c]"
      "Prefix (LogCfg a) = ''A''" "Prefix (LogCfg b) = ''B''" "Prefix (LogCfg c) = ''C''"
      using launched_logsABC by blast
    have w: "\<not> workerFailed ?env a" "workerFailed ?env b" "\<not> workerFailed ?env c"
      and r: "HammerCTLog ?env a \<noteq> NeverReturns" "HammerCTLog ?env b \<noteq> NeverReturns"
        "HammerCTLog ?env c \<noteq> NeverReturns"
      using h(2-4) by (simp_all add: workerFailed_def envCampaigns_def)
    show ?thesis using t h w r by simp
  qed
  have two: "status (main (envCampaigns logsABC [] []) flagsBase) = Done"
  proof -
    let ?env = "envCampaigns logsABC [] []"
    note t = main_verdict [of ?env flagsBase 0 logsABC flagsBase localsBase,
        THEN conjunct2, THEN conjunct2, rule_format,
        OF conjI [OF startup_envCampaigns logFault_logsABC]]
    from t obtain a b c where h: "launched (main ?env flagsBase) = [a, b, c]"
      using launched_logsABC by blast
    have r: "HammerCTLog ?env x = Returned None" for x
      by (simp add: envCampaigns_def)
    show ?thesis using t h r by simp
  qed
  have three: "status (main (envCampaigns logsABC [] [''B'']) flagsBase) = Blocked"
  proof -
    let ?env = "envCampaigns logsABC [] [''B'']"
    note t = main_verdict [of ?env flagsBase 0 logsABC flagsBase localsBase,
        THEN conjunct2, THEN conjunct2, rule_format,
        OF conjI [OF startup_envCampaigns logFault_logsABC]]
    from t obtain a b c where h: "launched (main ?env flagsBase) = [a, b, c]"
      "Prefix (LogCfg a) = ''A''" "Prefix (LogCfg b) = ''B''" "Prefix (LogCfg c) = ''C''"
      using launched_logsABC by blast
    have r: "HammerCTLog ?env b = NeverReturns"
      using h(3) by (simp add: envCampaigns_def)
    show ?thesis using t h r by simp
  qed
  show ?thesis using one two three by simp
qed

subsection \<open>Configuration errors and the workers already launched (C6)\<close>

text \<open>
  C6, as stated, fails on the configuration of two logs whose second has a malformed
  start bound: the run ends in the fatal error for \<open>b\<close>, and the worker of \<open>a\<close>, the
  log before it, has been launched by then.
\<close>

theorem config_error_launches_counterexample:
  "status (main (envOf [logPlain, logMalformed]) flagsBase)
     = Exited (DetermineNotAfterFailed ''b'' (ParseNotAfterStart NanosOutOfRange))
   \<and> map (Prefix \<circ> LogCfg) (launched (main (envOf [logPlain, logMalformed]) flagsBase)) = [''a'']"
  by code_simp

lemma startup_Inr:
  "logConfig fl0 \<noteq> [] \<Longrightarrow> LogConfigFromFile env (logConfig fl0) = Inr cfg \<Longrightarrow>
   testData env fl0 = Inr (ch, sg, fl) \<Longrightarrow> parseLeafNotAfter env fl = Inr ov \<Longrightarrow>
   startup env fl0
     = Inr (cfg, fl, \<lparr>leafChain = ch, signer = sg, notAfterOverride = ov,
                      bias = hammerBias fl, mf = metricFactory fl\<rparr>)"
  by (simp add: startup_def)

lemma main_first_fault:
  assumes s: "startup env fl0 = Inr (cfg, fl, loc)"
    and k: "k < length cfg"
    and ok: "\<forall>j<k. logFault env fl loc j (cfg ! j) = None"
    and f: "logFault env fl loc k (cfg ! k) = Some f"
  shows "status (main env fl0) = Exited f \<and> map LogCfg (launched (main env fl0)) = take k cfg
         \<and> logged (main env fl0) = []"
proof -
  have r: "snd (launchWorkers env fl loc 0 cfg) = Some f"
    and n: "length (fst (launchWorkers env fl loc 0 cfg)) = k"
    using launchWorkers_first_fault [of k cfg env fl loc 0 f] k ok f by simp_all
  show ?thesis
    using status_main_stop [OF s r] launchWorkers_LogCfg [of env fl loc 0 cfg] n
    by (simp add: launched_main [OF s])
qed

lemma main_config_error:
  assumes st: "status (main env fl0) = Exited f" and cf: "configFatal f"
  shows "logged (main env fl0) = []
         \<and> (\<not> perLogFatal f \<longrightarrow> launched (main env fl0) = [] \<and> startup env fl0 = Inl f)
         \<and> (perLogFatal f \<longrightarrow>
              (\<exists>cfg fl loc. startup env fl0 = Inr (cfg, fl, loc)
                 \<and> length (launched (main env fl0)) < length cfg
                 \<and> map LogCfg (launched (main env fl0))
                     = take (length (launched (main env fl0))) cfg
                 \<and> logFault env fl loc (length (launched (main env fl0)))
                       (cfg ! length (launched (main env fl0))) = Some f
                 \<and> (\<forall>j<length (launched (main env fl0)).
                       logFault env fl loc j (cfg ! j) = None)))"
  using status_main_configFatal [OF st cf]
proof
  assume s: "startup env fl0 = Inl f"
  then show ?thesis
    using startup_Inl [OF s] by (simp add: main_startup_Inl)
next
  assume "\<exists>cfg fl loc. startup env fl0 = Inr (cfg, fl, loc)
               \<and> snd (launchWorkers env fl loc 0 cfg) = Some f"
  then obtain cfg fl loc where s: "startup env fl0 = Inr (cfg, fl, loc)"
    and r: "snd (launchWorkers env fl loc 0 cfg) = Some f" by blast
  let ?hs = "fst (launchWorkers env fl loc 0 cfg)"
  have l: "launched (main env fl0) = ?hs" by (rule launched_main [OF s])
  have n: "length ?hs < length cfg"
    and p: "prepare env fl loc (length ?hs) (cfg ! length ?hs) = Inl f"
    using launchWorkers_stop [OF r] by simp_all
  have per: "perLogFatal f" by (rule prepare_Inl [OF p])
  have lf: "logFault env fl loc (length ?hs) (cfg ! length ?hs) = Some f"
    using p by (simp add: prepare_fault)
  have ok: "\<forall>j<length ?hs. logFault env fl loc j (cfg ! j) = None"
    using launchWorkers_faults [of _ env fl loc 0 cfg] by simp
  have "startup env fl0 = Inr (cfg, fl, loc)
        \<and> length (launched (main env fl0)) < length cfg
        \<and> map LogCfg (launched (main env fl0)) = take (length (launched (main env fl0))) cfg
        \<and> logFault env fl loc (length (launched (main env fl0)))
              (cfg ! length (launched (main env fl0))) = Some f
        \<and> (\<forall>j<length (launched (main env fl0)). logFault env fl loc j (cfg ! j) = None)"
    using s n lf ok launchWorkers_LogCfg [of env fl loc 0 cfg] by (simp add: l)
  then show ?thesis
    using per status_main_stop [OF s r] by blast
qed

text \<open>
  C6, amended. Every configuration error ends the run in its fatal exit, and the workers
  launched by then are exactly those of the logs that precede the error.
  \<^item> An error before the loop over the logs ends the run before any worker is launched:
    no log configuration given; the log configuration not readable; with a test data
    directory, the chain or the signer not loadable; an override given and not parsable.
    When none of these occurs, the loop is entered with the values these steps yield.
  \<^item> In the loop, when the log at position \<open>k\<close> is the first with a configuration error
    (its client pool cannot be built; or no override other than the zero time is in force
    and \<^verbatim>\<open>notAfterForLog\<close> returns an error for it, for instance for a malformed shard
    bound; or its chain generator cannot be built), the run ends in the fatal exit of that
    error, and the workers launched are those of the \<open>k\<close> logs before it, in the order
    of the configuration; none is launched for that log or a later one, and the
    aggregation logs nothing.
  \<^item> Conversely, a run that ends in a configuration error has logged nothing, and either
    the error is one of those before the loop and no worker has been launched, or it is
    the configuration error of the first log that has one, and the workers launched are
    those of the logs before it.
\<close>

theorem config_error_launches:
  "(logConfig fl0 = [] \<longrightarrow>
      status (main env fl0) = Exited NoLogConfig \<and> launched (main env fl0) = [])
   \<and> (logConfig fl0 \<noteq> [] \<and> LogConfigFromFile env (logConfig fl0) = Inl e1 \<longrightarrow>
        status (main env fl0) = Exited (ReadLogConfigFailed e1) \<and> launched (main env fl0) = [])
   \<and> (logConfig fl0 \<noteq> [] \<and> LogConfigFromFile env (logConfig fl0) = Inr cfg
       \<and> testDir fl0 \<noteq> [] \<and> GetChain env (testDir fl0) ''leaf01.chain'' = Inl e2 \<longrightarrow>
        status (main env fl0) = Exited (LoadCertificateFailed e2) \<and> launched (main env fl0) = [])
   \<and> (logConfig fl0 \<noteq> [] \<and> LogConfigFromFile env (logConfig fl0) = Inr cfg
       \<and> testDir fl0 \<noteq> [] \<and> GetChain env (testDir fl0) ''leaf01.chain'' = Inr ch
       \<and> MakeSigner env (testDir fl0) = Inl e3 \<longrightarrow>
        status (main env fl0) = Exited (RetrieveSignerFailed e3) \<and> launched (main env fl0) = [])
   \<and> (logConfig fl0 \<noteq> [] \<and> LogConfigFromFile env (logConfig fl0) = Inr cfg
       \<and> testData env fl0 = Inr (ch, sg, fl)
       \<and> leafNotAfter fl0 \<noteq> [] \<and> timeParse env (leafNotAfter fl0) = Inl e4 \<longrightarrow>
        status (main env fl0) = Exited (ParseLeafNotAfterFailed e4)
        \<and> launched (main env fl0) = [])
   \<and> (logConfig fl0 \<noteq> [] \<and> LogConfigFromFile env (logConfig fl0) = Inr cfg
       \<and> testData env fl0 = Inr (ch, sg, fl) \<and> parseLeafNotAfter env fl = Inr ov \<longrightarrow>
        startup env fl0
          = Inr (cfg, fl, \<lparr>leafChain = ch, signer = sg, notAfterOverride = ov,
                           bias = hammerBias fl, mf = metricFactory fl\<rparr>))
   \<and> (startup env fl0 = Inr (cfg, fl, loc) \<and> k < length cfg
       \<and> (\<forall>j<k. logFault env fl loc j (cfg ! j) = None)
       \<and> logFault env fl loc k (cfg ! k) = Some f \<longrightarrow>
        status (main env fl0) = Exited f
        \<and> map LogCfg (launched (main env fl0)) = take k cfg
        \<and> logged (main env fl0) = [])
   \<and> (status (main env fl0) = Exited g \<and> configFatal g \<longrightarrow>
        logged (main env fl0) = []
        \<and> (\<not> perLogFatal g \<longrightarrow> launched (main env fl0) = [] \<and> startup env fl0 = Inl g)
        \<and> (perLogFatal g \<longrightarrow>
              (\<exists>cfg fl loc. startup env fl0 = Inr (cfg, fl, loc)
                 \<and> length (launched (main env fl0)) < length cfg
                 \<and> map LogCfg (launched (main env fl0))
                     = take (length (launched (main env fl0))) cfg
                 \<and> logFault env fl loc (length (launched (main env fl0)))
                       (cfg ! length (launched (main env fl0))) = Some g
                 \<and> (\<forall>j<length (launched (main env fl0)).
                       logFault env fl loc j (cfg ! j) = None))))"
proof -
  have a1: "logConfig fl0 = [] \<longrightarrow>
      status (main env fl0) = Exited NoLogConfig \<and> launched (main env fl0) = []"
    using main_startup_Inl [OF startup_NoLogConfig, of fl0 env] by simp
  have a2: "logConfig fl0 \<noteq> [] \<and> LogConfigFromFile env (logConfig fl0) = Inl e1 \<longrightarrow>
        status (main env fl0) = Exited (ReadLogConfigFailed e1) \<and> launched (main env fl0) = []"
    using main_startup_Inl [OF startup_ReadLogConfigFailed, of fl0 env e1] by simp
  have a3: "logConfig fl0 \<noteq> [] \<and> LogConfigFromFile env (logConfig fl0) = Inr cfg
       \<and> testDir fl0 \<noteq> [] \<and> GetChain env (testDir fl0) ''leaf01.chain'' = Inl e2 \<longrightarrow>
        status (main env fl0) = Exited (LoadCertificateFailed e2) \<and> launched (main env fl0) = []"
    using main_startup_Inl [OF startup_LoadCertificateFailed, of fl0 env cfg e2] by simp
  have a4: "logConfig fl0 \<noteq> [] \<and> LogConfigFromFile env (logConfig fl0) = Inr cfg
       \<and> testDir fl0 \<noteq> [] \<and> GetChain env (testDir fl0) ''leaf01.chain'' = Inr ch
       \<and> MakeSigner env (testDir fl0) = Inl e3 \<longrightarrow>
        status (main env fl0) = Exited (RetrieveSignerFailed e3) \<and> launched (main env fl0) = []"
    using main_startup_Inl [OF startup_RetrieveSignerFailed, of fl0 env cfg ch e3] by simp
  have a5: "logConfig fl0 \<noteq> [] \<and> LogConfigFromFile env (logConfig fl0) = Inr cfg
       \<and> testData env fl0 = Inr (ch, sg, fl)
       \<and> leafNotAfter fl0 \<noteq> [] \<and> timeParse env (leafNotAfter fl0) = Inl e4 \<longrightarrow>
        status (main env fl0) = Exited (ParseLeafNotAfterFailed e4)
        \<and> launched (main env fl0) = []"
    using main_startup_Inl [OF startup_ParseLeafNotAfterFailed, of fl0 env cfg ch sg fl e4]
    by simp
  have a6: "logConfig fl0 \<noteq> [] \<and> LogConfigFromFile env (logConfig fl0) = Inr cfg
       \<and> testData env fl0 = Inr (ch, sg, fl) \<and> parseLeafNotAfter env fl = Inr ov \<longrightarrow>
        startup env fl0
          = Inr (cfg, fl, \<lparr>leafChain = ch, signer = sg, notAfterOverride = ov,
                           bias = hammerBias fl, mf = metricFactory fl\<rparr>)"
    using startup_Inr [of fl0 env cfg ch sg fl ov] by simp
  have b: "startup env fl0 = Inr (cfg, fl, loc) \<and> k < length cfg
       \<and> (\<forall>j<k. logFault env fl loc j (cfg ! j) = None)
       \<and> logFault env fl loc k (cfg ! k) = Some f \<longrightarrow>
        status (main env fl0) = Exited f
        \<and> map LogCfg (launched (main env fl0)) = take k cfg
        \<and> logged (main env fl0) = []"
    using main_first_fault [of env fl0 cfg fl loc k f] by blast
  have d: "status (main env fl0) = Exited g \<and> configFatal g \<longrightarrow>
        logged (main env fl0) = []
        \<and> (\<not> perLogFatal g \<longrightarrow> launched (main env fl0) = [] \<and> startup env fl0 = Inl g)
        \<and> (perLogFatal g \<longrightarrow>
              (\<exists>cfg fl loc. startup env fl0 = Inr (cfg, fl, loc)
                 \<and> length (launched (main env fl0)) < length cfg
                 \<and> map LogCfg (launched (main env fl0))
                     = take (length (launched (main env fl0))) cfg
                 \<and> logFault env fl loc (length (launched (main env fl0)))
                       (cfg ! length (launched (main env fl0))) = Some g
                 \<and> (\<forall>j<length (launched (main env fl0)).
                       logFault env fl loc j (cfg ! j) = None)))"
    using main_config_error [of env fl0 g] by blast
  show ?thesis
    by (rule conjI [OF a1 conjI [OF a2 conjI [OF a3 conjI [OF a4 conjI [OF a5 conjI [OF a6
        conjI [OF b d]]]]]]])
qed


text \<open>The concrete runs with a faulty environment.\<close>

lemma startup_envFaulty:
  "startup (envFaulty cfg noPool) flagsBase = Inr (cfg, flagsBase, localsBase)"
  by (simp add: startup_def envFaulty_def envOf_def flagsBase_def defaultFlags_def
      testData_def parseLeafNotAfter_def localsBase_def metricFactory_def)

lemma testData_envOf:
  "testData (envOf cfg) flagsBadOverride
     = Inr ([''leaf'', ''intermediate'', ''root''], Some (Signer ''int-ca.privkey''),
            flagsBadOverride)"
  by (simp add: testData_def envOf_def flagsBadOverride_def flagsBase_def defaultFlags_def)

text \<open>
  An override that cannot be parsed: no worker is launched. A limit bound after the year
  9999 at the third of four logs: the workers of the first two are launched. No client
  pool for the second of two logs: the worker of the first is launched. No chain
  generator for the second of three logs: the worker of the first is launched.
\<close>

theorem config_error_launches_witness:
  "status (main (envOf [logPlain]) flagsBadOverride)
     = Exited (ParseLeafNotAfterFailed ''layout outside the fragment'')
   \<and> launched (main (envOf [logPlain]) flagsBadOverride) = []
   \<and> status (main (envFaulty [logPlain, logShard, logBadLimit, logStartOnly] []) flagsBase)
       = Exited (DetermineNotAfterFailed ''h'' (ParseNotAfterLimit AfterYear10000))
   \<and> map LogCfg
        (launched (main (envFaulty [logPlain, logShard, logBadLimit, logStartOnly] []) flagsBase))
       = [logPlain, logShard]
   \<and> status (main (envFaulty [logPlain, logShard] [''c'']) flagsBase)
       = Exited (CreateClientPoolFailed ''no pool'')
   \<and> map LogCfg (launched (main (envFaulty [logPlain, logShard] [''c'']) flagsBase)) = [logPlain]
   \<and> status (main (envFaulty [logStartOnly, logExpired, logPlain] []) flagsBase)
       = Exited (BuildChainGeneratorFailed ''expired'')
   \<and> map LogCfg (launched (main (envFaulty [logStartOnly, logExpired, logPlain] []) flagsBase))
       = [logStartOnly]"
proof -
  have one: "status (main (envOf [logPlain]) flagsBadOverride)
     = Exited (ParseLeafNotAfterFailed ''layout outside the fragment'')
   \<and> launched (main (envOf [logPlain]) flagsBadOverride) = []"
  proof -
    have a: "logConfig flagsBadOverride \<noteq> []" "leafNotAfter flagsBadOverride \<noteq> []"
      by (simp_all add: flagsBadOverride_def flagsBase_def)
    have b: "LogConfigFromFile (envOf [logPlain]) (logConfig flagsBadOverride) = Inr [logPlain]"
      by (simp add: envOf_def)
    have c: "timeParse (envOf [logPlain]) (leafNotAfter flagsBadOverride)
               = Inl ''layout outside the fragment''"
      by code_simp
    show ?thesis
      using config_error_launches [where env = "envOf [logPlain]" and ?fl0.0 = flagsBadOverride
          and cfg = "[logPlain]" and ch = "[''leaf'', ''intermediate'', ''root'']"
          and sg = "Some (Signer ''int-ca.privkey'')" and fl = flagsBadOverride
          and ?e4.0 = "''layout outside the fragment''"]
        a b c testData_envOf [of "[logPlain]"]
      by simp
  qed
  have two: "status (main (envFaulty [logPlain, logShard, logBadLimit, logStartOnly] []) flagsBase)
       = Exited (DetermineNotAfterFailed ''h'' (ParseNotAfterLimit AfterYear10000))
   \<and> map LogCfg
        (launched (main (envFaulty [logPlain, logShard, logBadLimit, logStartOnly] []) flagsBase))
       = [logPlain, logShard]"
  proof -
    let ?cfg = "[logPlain, logShard, logBadLimit, logStartOnly]"
    let ?env = "envFaulty ?cfg []"
    have f0: "logFault ?env flagsBase localsBase 0 logPlain = None"
      and f1: "logFault ?env flagsBase localsBase 1 logShard = None"
      and f2: "logFault ?env flagsBase localsBase 2 logBadLimit
                 = Some (DetermineNotAfterFailed ''h'' (ParseNotAfterLimit AfterYear10000))"
      by code_simp+
    have ok: "\<forall>j<2. logFault ?env flagsBase localsBase j (?cfg ! j) = None"
    proof (intro allI impI)
      fix j :: nat assume "j < 2"
      then have "j = 0 \<or> j = 1" by auto
      then show "logFault ?env flagsBase localsBase j (?cfg ! j) = None"
        using f0 f1 by auto
    qed
    show ?thesis
      using config_error_launches [where env = ?env and ?fl0.0 = flagsBase and cfg = ?cfg
          and fl = flagsBase and loc = localsBase and k = 2
          and f = "DetermineNotAfterFailed ''h'' (ParseNotAfterLimit AfterYear10000)"]
        startup_envFaulty [of ?cfg "[]"] ok f2
      by simp
  qed
  have three: "status (main (envFaulty [logPlain, logShard] [''c'']) flagsBase)
       = Exited (CreateClientPoolFailed ''no pool'')
   \<and> map LogCfg (launched (main (envFaulty [logPlain, logShard] [''c'']) flagsBase)) = [logPlain]"
  proof -
    let ?cfg = "[logPlain, logShard]"
    let ?env = "envFaulty ?cfg [''c'']"
    have f0: "logFault ?env flagsBase localsBase 0 logPlain = None"
      and f1: "logFault ?env flagsBase localsBase 1 logShard
                 = Some (CreateClientPoolFailed ''no pool'')"
      by code_simp+
    show ?thesis
      using config_error_launches [where env = ?env and ?fl0.0 = flagsBase and cfg = ?cfg
          and fl = flagsBase and loc = localsBase and k = 1
          and f = "CreateClientPoolFailed ''no pool''"]
        startup_envFaulty [of ?cfg "[''c'']"] f0 f1
      by simp
  qed
  have four: "status (main (envFaulty [logStartOnly, logExpired, logPlain] []) flagsBase)
       = Exited (BuildChainGeneratorFailed ''expired'')
   \<and> map LogCfg (launched (main (envFaulty [logStartOnly, logExpired, logPlain] []) flagsBase))
       = [logStartOnly]"
  proof -
    let ?cfg = "[logStartOnly, logExpired, logPlain]"
    let ?env = "envFaulty ?cfg []"
    have f0: "logFault ?env flagsBase localsBase 0 logStartOnly = None"
      and f1: "logFault ?env flagsBase localsBase 1 logExpired
                 = Some (BuildChainGeneratorFailed ''expired'')"
      by code_simp+
    show ?thesis
      using config_error_launches [where env = ?env and ?fl0.0 = flagsBase and cfg = ?cfg
          and fl = flagsBase and loc = localsBase and k = 1
          and f = "BuildChainGeneratorFailed ''expired''"]
        startup_envFaulty [of ?cfg "[]"] f0 f1
      by simp
  qed
  show ?thesis using one two three four by simp
qed

end
